theory Spec2Isabelle
  imports Complex_Main "HOL-Library.Word"
begin

unbundle bit_operations_syntax

section \<open>The 4-20 mA R and T Click driver (MIKROE\_4\_20mA\_RT\_Click)\<close>

text \<open>
  A shallow embedding of \<^verbatim>\<open>MIKROE_4_20mA_RT_Click.h\<close> and
  \<^verbatim>\<open>MIKROE_4_20mA_RT_Click.cpp\<close>: the calibration mapper, the two SPI
  exchanges, the fault threshold and the exponential moving average (EMA) of the R Click.

  Machine integers are words of the width the source declares. Every method takes the
  object and the outside world (the SPI bus, the pins) and returns both updated; the
  reading of \<^verbatim>\<open>micros()\<close> is an argument of the method that takes it.
\<close>

subsection \<open>Machine types\<close>

type_synonym byte = "8 word"
type_synonym uint8_t = "8 word"
type_synonym uint16_t = "16 word"
type_synonym uint32_t = "32 word"

subsection \<open>The type float\<close>

text \<open>
  A C++ \<^verbatim>\<open>float\<close> is a finite number, one of the two infinities, or NAN.
  The finite values are modelled as reals and the arithmetic on them is exact: the rounding
  of a result to 24 significant bits, overflow to an infinity and the sign of a zero are
  not modelled here. The smoothing factor of the EMA is the exception: each of its
  operations is rounded to single precision, as defined below; and the two maps of the
  calibration are given with rounded arithmetic as well, further down. The special values
  follow IEEE 754: NAN is contagious, every comparison
  with NAN is false, a non-zero number divided by zero is an infinity, and zero divided by
  zero is NAN. (A zero divisor is taken as +0.0: both divisors in the source are a
  converted integer or a difference of two floats, which is never -0.0.)
\<close>

datatype float = Fin real | PInf | MInf | NaN

instantiation float :: "{plus, uminus, minus, times, inverse, ord}"
begin

fun plus_float :: "float \<Rightarrow> float \<Rightarrow> float" where
  "plus_float NaN y = NaN"
| "plus_float x NaN = NaN"
| "plus_float (Fin a) (Fin b) = Fin (a + b)"
| "plus_float PInf MInf = NaN"
| "plus_float MInf PInf = NaN"
| "plus_float PInf y = PInf"
| "plus_float MInf y = MInf"
| "plus_float (Fin a) y = y"

fun uminus_float :: "float \<Rightarrow> float" where
  "uminus_float (Fin a) = Fin (- a)"
| "uminus_float PInf = MInf"
| "uminus_float MInf = PInf"
| "uminus_float NaN = NaN"

definition minus_float :: "float \<Rightarrow> float \<Rightarrow> float" where
  "minus_float x y = x + (- y)"

fun times_float :: "float \<Rightarrow> float \<Rightarrow> float" where
  "times_float NaN y = NaN"
| "times_float x NaN = NaN"
| "times_float (Fin a) (Fin b) = Fin (a * b)"
| "times_float (Fin a) PInf = (if a = 0 then NaN else if 0 < a then PInf else MInf)"
| "times_float (Fin a) MInf = (if a = 0 then NaN else if 0 < a then MInf else PInf)"
| "times_float PInf (Fin b) = (if b = 0 then NaN else if 0 < b then PInf else MInf)"
| "times_float MInf (Fin b) = (if b = 0 then NaN else if 0 < b then MInf else PInf)"
| "times_float PInf PInf = PInf"
| "times_float MInf MInf = PInf"
| "times_float PInf MInf = MInf"
| "times_float MInf PInf = MInf"

fun divide_float :: "float \<Rightarrow> float \<Rightarrow> float" where
  "divide_float NaN y = NaN"
| "divide_float x NaN = NaN"
| "divide_float (Fin a) (Fin b) =
     (if b \<noteq> 0 then Fin (a / b)
      else if a = 0 then NaN else if 0 < a then PInf else MInf)"
| "divide_float (Fin a) y = Fin 0"
| "divide_float PInf (Fin b) = (if 0 \<le> b then PInf else MInf)"
| "divide_float MInf (Fin b) = (if 0 \<le> b then MInf else PInf)"
| "divide_float x y = NaN"

definition inverse_float :: "float \<Rightarrow> float" where
  "inverse_float x = divide (Fin 1) x"

fun less_float :: "float \<Rightarrow> float \<Rightarrow> bool" where
  "less_float NaN y = False"
| "less_float x NaN = False"
| "less_float (Fin a) (Fin b) = (a < b)"
| "less_float MInf MInf = False"
| "less_float MInf y = True"
| "less_float x PInf = (x \<noteq> PInf)"
| "less_float x y = False"

fun less_eq_float :: "float \<Rightarrow> float \<Rightarrow> bool" where
  "less_eq_float NaN y = False"
| "less_eq_float x NaN = False"
| "less_eq_float (Fin a) (Fin b) = (a \<le> b)"
| "less_eq_float MInf y = True"
| "less_eq_float x PInf = True"
| "less_eq_float x y = False"

instance ..

end

text \<open>\<^verbatim>\<open>exp\<close> of math.h.\<close>

fun float_exp :: "float \<Rightarrow> float" where
  "float_exp (Fin a) = Fin (exp a)"
| "float_exp PInf = PInf"
| "float_exp MInf = Fin 0"
| "float_exp NaN = NaN"

text \<open>
  The conversions of an integer to \<^verbatim>\<open>float\<close>. \<^verbatim>\<open>uint16_t\<close>
  operands of an arithmetic operator are promoted to \<^verbatim>\<open>int\<close> first (32 bits
  on the ATSAMD51 of the Feather M4), so a difference of two of them is an integer that may
  be negative.
\<close>

definition float_of_int :: "int \<Rightarrow> float" where
  "float_of_int i = Fin (real_of_int i)"

definition float_of_uint16 :: "uint16_t \<Rightarrow> float" where
  "float_of_uint16 w = float_of_int (uint w)"

definition float_of_uint32 :: "uint32_t \<Rightarrow> float" where
  "float_of_uint32 w = float_of_int (uint w)"

text \<open>
  Rounding to single precision (IEEE 754 binary32, round to nearest, ties to even). The
  binary32 numbers around \<open>x\<close> are the multiples of \<open>binary32_ulp x\<close>: 24
  significant bits at the exponent of \<open>x\<close>, and the spacing of the subnormal numbers
  below \<open>1 / 2 ^ 126\<close>. \<open>binary32_round x\<close> is the nearest multiple, and
  \<open>binary32\<close> makes an infinity of a result that exceeds the largest finite number.
\<close>

definition round_ties_even :: "real \<Rightarrow> int" where
  "round_ties_even t =
     (if t - real_of_int \<lfloor>t\<rfloor> < 1 / 2 then \<lfloor>t\<rfloor>
      else if 1 / 2 < t - real_of_int \<lfloor>t\<rfloor> then \<lfloor>t\<rfloor> + 1
      else if even \<lfloor>t\<rfloor> then \<lfloor>t\<rfloor> else \<lfloor>t\<rfloor> + 1)"

definition binary32_exponent :: "real \<Rightarrow> int" where
  "binary32_exponent x = max \<lfloor>log 2 \<bar>x\<bar>\<rfloor> (- 126)"

definition binary32_ulp :: "real \<Rightarrow> real" where
  "binary32_ulp x = 2 powr real_of_int (binary32_exponent x - 23)"

definition binary32_round :: "real \<Rightarrow> real" where
  "binary32_round x = real_of_int (round_ties_even (x / binary32_ulp x)) * binary32_ulp x"

definition FLT_MAX :: real where
  "FLT_MAX = (2 ^ 24 - 1) * 2 ^ 104"

fun binary32 :: "float \<Rightarrow> float" where
  "binary32 (Fin r) =
     (if FLT_MAX < binary32_round r then PInf
      else if binary32_round r < - FLT_MAX then MInf
      else Fin (binary32_round r))"
| "binary32 x = x"

text \<open>
  \<^verbatim>\<open>round\<close>: to the nearest integer, a tie away from zero. This is what
  \<^verbatim>\<open>round\<close> of math.h does and what the macro of Arduino.h,
  \<^verbatim>\<open>((x)>=0?(long)((x)+0.5):(long)((x)-0.5))\<close>, does with its truncating
  conversion.
\<close>

definition round_half_away :: "real \<Rightarrow> int" where
  "round_half_away x = (if 0 \<le> x then \<lfloor>x + 1 / 2\<rfloor> else \<lceil>x - 1 / 2\<rceil>)"

text \<open>
  \<^verbatim>\<open>(uint16_t)round(x)\<close>. A rounded value that fits is kept; a finite one
  that does not fit is reduced modulo \<open>2 ^ 16\<close>, as the conversion of the macro's
  \<^verbatim>\<open>long\<close> does. C++ leaves the conversion of NAN and of an infinity
  undefined; the model takes 0 there, and no result below depends on that value.
\<close>

fun uint16_of_round :: "float \<Rightarrow> uint16_t" where
  "uint16_of_round (Fin r) = word_of_int (round_half_away r)"
| "uint16_of_round x = 0"

subsection \<open>Constants\<close>

definition DEFAULT_RT_CLICK_SPI_CLOCK :: uint32_t where
  "DEFAULT_RT_CLICK_SPI_CLOCK = 1000000"

text \<open>
  The fault threshold, \<^verbatim>\<open>const float R_CLICK_FAULT_mA = 3.8\<close>. The literal
  is taken as written, in line with the exact arithmetic of the model.
\<close>

definition R_CLICK_FAULT_mA :: float where
  "R_CLICK_FAULT_mA = Fin (38 / 10)"

subsection \<open>RT\_Click\_Calibration\<close>

record RT_Click_Calibration =
  p1_mA :: float
  p2_mA :: float
  p1_bitval :: uint16_t
  p2_bitval :: uint16_t

subsection \<open>The outside world: pins and the SPI bus\<close>

text \<open>
  What the driver does to the board is kept as a trace of events, in the order of the calls.
  \<^verbatim>\<open>SPI.transfer\<close> sends one byte and returns the byte that the chip clocks
  out meanwhile: \<open>sdo w k\<close> is the byte returned by the \<open>k\<close>-th transfer
  since power-up, and \<open>transfers w\<close> counts the transfers made so far.
\<close>

datatype bus_event =
    SPI_begin
  | PinMode_OUTPUT uint8_t
  | DigitalWrite uint8_t bool
  | BeginTransaction uint32_t
  | Transfer byte
  | EndTransaction

record world =
  trace :: "bus_event list"
  sdo :: "nat \<Rightarrow> byte"
  transfers :: nat

definition emit :: "bus_event \<Rightarrow> world \<Rightarrow> world" where
  "emit e w = w\<lparr>trace := trace w @ [e]\<rparr>"

definition SPI_transfer :: "byte \<Rightarrow> world \<Rightarrow> byte \<times> world" where
  "SPI_transfer b w =
     (sdo w (transfers w), (emit (Transfer b) w)\<lparr>transfers := Suc (transfers w)\<rparr>)"

definition HIGH :: bool where "HIGH = True"
definition LOW :: bool where "LOW = False"

subsection \<open>T\_Click\<close>

text \<open>
  The constructor leaves \<^verbatim>\<open>bitval_\<close> uninitialised: its first value is an
  argument of the model's constructor.
\<close>

record T_Click =
  T_SPI_clock :: uint32_t
  T_CS_pin :: uint8_t
  T_calib :: RT_Click_Calibration
  T_bitval :: uint16_t

definition new_T_Click :: "uint8_t \<Rightarrow> RT_Click_Calibration \<Rightarrow> uint16_t \<Rightarrow> T_Click" where
  "new_T_Click CS_pin calib uninit =
     \<lparr>T_SPI_clock = DEFAULT_RT_CLICK_SPI_CLOCK, T_CS_pin = CS_pin, T_calib = calib,
      T_bitval = uninit\<rparr>"

definition T_set_SPI_clock :: "uint32_t \<Rightarrow> T_Click \<Rightarrow> T_Click" where
  "T_set_SPI_clock clk_freq_Hz t = t\<lparr>T_SPI_clock := clk_freq_Hz\<rparr>"

definition mA2bitval :: "RT_Click_Calibration \<Rightarrow> float \<Rightarrow> uint16_t" where
  "mA2bitval calib mA =
     uint16_of_round
       ((mA - p1_mA calib) / (p2_mA calib - p1_mA calib) *
          float_of_int (uint (p2_bitval calib) - uint (p1_bitval calib)) +
        float_of_uint16 (p1_bitval calib))"

text \<open>The two bytes of the write command of the MCP4921.\<close>

definition bitval_HI :: "uint16_t \<Rightarrow> byte" where
  "bitval_HI bitval = (ucast (drop_bit 8 bitval AND 0x0F) :: byte) OR 0x30"

definition bitval_LO :: "uint16_t \<Rightarrow> byte" where
  "bitval_LO bitval = ucast bitval"

definition set_mA :: "float \<Rightarrow> T_Click \<Rightarrow> world \<Rightarrow> T_Click \<times> world" where
  "set_mA mA t w =
     (let t' = t\<lparr>T_bitval := mA2bitval (T_calib t) mA\<rparr>;
          HI = bitval_HI (T_bitval t');
          LO = bitval_LO (T_bitval t');
          w1 = emit (BeginTransaction (T_SPI_clock t')) w;
          w2 = emit (DigitalWrite (T_CS_pin t') LOW) w1;
          w3 = snd (SPI_transfer HI w2);
          w4 = snd (SPI_transfer LO w3);
          w5 = emit (DigitalWrite (T_CS_pin t') HIGH) w4;
          w6 = emit EndTransaction w5
      in (t', w6))"

definition T_begin :: "T_Click \<Rightarrow> world \<Rightarrow> T_Click \<times> world" where
  "T_begin t w =
     (let w1 = emit SPI_begin w;
          w2 = emit (DigitalWrite (T_CS_pin t) HIGH) w1;
          w3 = emit (PinMode_OUTPUT (T_CS_pin t)) w2
      in set_mA (Fin 4) t w3)"

definition get_last_set_bitval :: "T_Click \<Rightarrow> uint16_t" where
  "get_last_set_bitval t = T_bitval t"

subsection \<open>R\_Click\<close>

text \<open>
  \<^verbatim>\<open>EMA_tick_\<close> is initialised with the reading of \<^verbatim>\<open>micros()\<close>
  at construction, an argument of the model's constructors;
  \<^verbatim>\<open>EMA_obtained_interval_\<close> is left uninitialised, so its first value is an
  argument too.
\<close>

record R_Click =
  SPI_clock :: uint32_t
  CS_pin :: uint8_t
  calib :: RT_Click_Calibration
  EMA_interval :: uint32_t
  EMA_LP_freq :: float
  EMA_bitval :: float
  EMA_at_startup :: bool
  EMA_tick :: uint32_t
  EMA_obtained_interval :: uint32_t

definition new_R_Click ::
  "uint8_t \<Rightarrow> RT_Click_Calibration \<Rightarrow> uint32_t \<Rightarrow> uint32_t \<Rightarrow> R_Click" where
  "new_R_Click pin cal micros0 uninit =
     \<lparr>SPI_clock = DEFAULT_RT_CLICK_SPI_CLOCK, CS_pin = pin, calib = cal,
      EMA_interval = 2000, EMA_LP_freq = Fin (10 / 10 ^ 6), EMA_bitval = NaN,
      EMA_at_startup = True, EMA_tick = micros0, EMA_obtained_interval = uninit\<rparr>"

definition new_R_Click_EMA ::
  "uint8_t \<Rightarrow> RT_Click_Calibration \<Rightarrow> uint32_t \<Rightarrow> float \<Rightarrow> uint32_t \<Rightarrow> uint32_t
     \<Rightarrow> R_Click" where
  "new_R_Click_EMA pin cal interval LP_freq micros0 uninit =
     (new_R_Click pin cal micros0 uninit)
       \<lparr>EMA_interval := interval, EMA_LP_freq := LP_freq * Fin (1 / 10 ^ 6)\<rparr>"

definition R_set_SPI_clock :: "uint32_t \<Rightarrow> R_Click \<Rightarrow> R_Click" where
  "R_set_SPI_clock clk_freq_Hz r = r\<lparr>SPI_clock := clk_freq_Hz\<rparr>"

definition R_begin :: "R_Click \<Rightarrow> world \<Rightarrow> world" where
  "R_begin r w =
     emit (PinMode_OUTPUT (CS_pin r)) (emit (DigitalWrite (CS_pin r) HIGH) (emit SPI_begin w))"

text \<open>
  \<^verbatim>\<open>bitval2mA\<close> in two steps: the linear map of the calibration, and the
  comparison with the fault threshold that ends it.
\<close>

definition linear_mA :: "RT_Click_Calibration \<Rightarrow> float \<Rightarrow> float" where
  "linear_mA cal bitval =
     p1_mA cal +
     (bitval - float_of_uint16 (p1_bitval cal)) /
       float_of_int (uint (p2_bitval cal) - uint (p1_bitval cal)) *
       (p2_mA cal - p1_mA cal)"

definition classify :: "float \<Rightarrow> float" where
  "classify mA = (if mA > R_CLICK_FAULT_mA then mA else NaN)"

definition bitval2mA :: "RT_Click_Calibration \<Rightarrow> float \<Rightarrow> float" where
  "bitval2mA cal bitval = classify (linear_mA cal bitval)"

text \<open>
  The reconstruction of the reading from the two bytes of the MCP3201:
  \<^verbatim>\<open>(uint16_t)((data_HI << 8) | data_LO) >> 1\<close>, where
  \<^verbatim>\<open>data_HI\<close> has been masked with \<^verbatim>\<open>0x1F\<close> already.
\<close>

definition reconstruct :: "byte \<Rightarrow> byte \<Rightarrow> uint16_t" where
  "reconstruct data_HI data_LO =
     drop_bit 1 (push_bit 8 (ucast data_HI :: uint16_t) OR ucast data_LO)"

definition read_bitval :: "R_Click \<Rightarrow> world \<Rightarrow> uint16_t \<times> world" where
  "read_bitval r w =
     (let w1 = emit (BeginTransaction (SPI_clock r)) w;
          w2 = emit (DigitalWrite (CS_pin r) LOW) w1;
          (b1, w3) = SPI_transfer 0xFF w2;
          data_HI = b1 AND 0x1F;
          (data_LO, w4) = SPI_transfer 0xFF w3;
          w5 = emit (DigitalWrite (CS_pin r) HIGH) w4;
          w6 = emit EndTransaction w5
      in (reconstruct data_HI data_LO, w6))"

definition read_mA :: "R_Click \<Rightarrow> world \<Rightarrow> float \<times> world" where
  "read_mA r w = (let (bitval, w') = read_bitval r w in (bitval2mA (calib r) (float_of_uint16 bitval), w'))"

text \<open>
  The smoothing factor of one sampling call,
  \<^verbatim>\<open>1.f - exp(-float(EMA_obtained_interval_) * EMA_LP_freq_)\<close>, in single
  precision: the conversion of the interval, the product, the exponential and the
  difference are each rounded to a \<^verbatim>\<open>float\<close>. (\<^verbatim>\<open>exp\<close> is
  called with a \<^verbatim>\<open>float\<close>; its result is taken as the
  \<^verbatim>\<open>float\<close> nearest to the exponential.)
\<close>

definition EMA_alpha :: "uint32_t \<Rightarrow> float \<Rightarrow> float" where
  "EMA_alpha obtained_interval LP_freq =
     binary32 (Fin 1 -
       binary32 (float_exp (binary32 (- binary32 (float_of_uint32 obtained_interval) * LP_freq))))"

text \<open>\<open>now\<close> is the reading of \<^verbatim>\<open>micros()\<close> that opens the call.\<close>

definition poll_EMA :: "uint32_t \<Rightarrow> R_Click \<Rightarrow> world \<Rightarrow> bool \<times> R_Click \<times> world" where
  "poll_EMA now r w =
     (if now - EMA_tick r \<ge> EMA_interval r then
        let r1 = r\<lparr>EMA_obtained_interval := now - EMA_tick r\<rparr>;
            alpha = EMA_alpha (EMA_obtained_interval r1) (EMA_LP_freq r1);
            (raw, w') = read_bitval r1 w;
            r2 = (if EMA_at_startup r1
                  then r1\<lparr>EMA_at_startup := False, EMA_bitval := float_of_uint16 raw\<rparr>
                  else r1\<lparr>EMA_bitval :=
                         EMA_bitval r1 + alpha * (float_of_uint16 raw - EMA_bitval r1)\<rparr>)
        in (True, r2\<lparr>EMA_tick := now\<rparr>, w')
      else (False, r, w))"

definition get_EMA_bitval :: "R_Click \<Rightarrow> float" where
  "get_EMA_bitval r = EMA_bitval r"

definition get_EMA_mA :: "R_Click \<Rightarrow> float" where
  "get_EMA_mA r = bitval2mA (calib r) (EMA_bitval r)"

definition get_EMA_obtained_interval :: "R_Click \<Rightarrow> uint32_t" where
  "get_EMA_obtained_interval r = EMA_obtained_interval r"

subsection \<open>The two maps with rounded arithmetic\<close>

text \<open>
  The finite values above are exact. To see what the rounding of \<^verbatim>\<open>float\<close>
  arithmetic does to the round trip through the two maps of the calibration, the maps are
  given a second time, with the result of every floating-point operation passed through a
  rounding function \<open>rnd\<close>. \<open>binary32_error rnd\<close> is what round-to-nearest
  guarantees for single precision: zero stays zero, and a result whose magnitude lies in the
  range of the normal numbers is off by at most the fraction \<open>1 / 2 ^ 24\<close> of itself.
  The conversions of the 16-bit integers are exact, since a \<^verbatim>\<open>float\<close> holds
  every integer up to \<open>2 ^ 24\<close>. With the identity as \<open>rnd\<close> these are the maps
  defined above.
\<close>

definition binary32_error :: "(real \<Rightarrow> real) \<Rightarrow> bool" where
  "binary32_error rnd \<longleftrightarrow>
     rnd 0 = 0 \<and>
     (\<forall>x. 1 / 2 ^ 126 \<le> \<bar>x\<bar> \<and> \<bar>x\<bar> \<le> 2 ^ 127 \<longrightarrow> \<bar>rnd x - x\<bar> \<le> \<bar>x\<bar> / 2 ^ 24)"

fun fl :: "(real \<Rightarrow> real) \<Rightarrow> float \<Rightarrow> float" where
  "fl rnd (Fin r) = Fin (rnd r)"
| "fl rnd x = x"

definition linear_mA_fl :: "(real \<Rightarrow> real) \<Rightarrow> RT_Click_Calibration \<Rightarrow> float \<Rightarrow> float" where
  "linear_mA_fl rnd cal bitval =
     fl rnd (p1_mA cal +
       fl rnd (fl rnd (fl rnd (bitval - float_of_uint16 (p1_bitval cal)) /
                 float_of_int (uint (p2_bitval cal) - uint (p1_bitval cal))) *
               fl rnd (p2_mA cal - p1_mA cal)))"

definition bitval2mA_fl :: "(real \<Rightarrow> real) \<Rightarrow> RT_Click_Calibration \<Rightarrow> float \<Rightarrow> float" where
  "bitval2mA_fl rnd cal bitval =
     (let mA = linear_mA_fl rnd cal bitval in if mA > fl rnd R_CLICK_FAULT_mA then mA else NaN)"

definition mA2bitval_fl :: "(real \<Rightarrow> real) \<Rightarrow> RT_Click_Calibration \<Rightarrow> float \<Rightarrow> uint16_t" where
  "mA2bitval_fl rnd cal mA =
     uint16_of_round
       (fl rnd (fl rnd (fl rnd (fl rnd (mA - p1_mA cal) / fl rnd (p2_mA cal - p1_mA cal)) *
                  float_of_int (uint (p2_bitval cal) - uint (p1_bitval cal))) +
                float_of_uint16 (p1_bitval cal)))"

subsection \<open>Sequences of calls on one R\_Click\<close>

text \<open>
  The public methods of \<^verbatim>\<open>R_Click\<close>, as calls with their arguments (for
  \<^verbatim>\<open>poll_EMA\<close>, the reading of \<^verbatim>\<open>micros()\<close> that the call
  makes), and what a call returns.
\<close>

datatype R_call =
    Call_set_SPI_clock uint32_t
  | Call_begin
  | Call_bitval2mA float
  | Call_read_bitval
  | Call_read_mA
  | Call_poll_EMA uint32_t
  | Call_get_EMA_bitval
  | Call_get_EMA_mA
  | Call_get_EMA_obtained_interval

datatype R_return =
    Ret_void
  | Ret_bool bool
  | Ret_uint16 uint16_t
  | Ret_uint32 uint32_t
  | Ret_float float

fun R_step :: "R_call \<Rightarrow> R_Click \<Rightarrow> world \<Rightarrow> R_return \<times> R_Click \<times> world" where
  "R_step (Call_set_SPI_clock f) r w = (Ret_void, R_set_SPI_clock f r, w)"
| "R_step Call_begin r w = (Ret_void, r, R_begin r w)"
| "R_step (Call_bitval2mA x) r w = (Ret_float (bitval2mA (calib r) x), r, w)"
| "R_step Call_read_bitval r w = (let (x, w') = read_bitval r w in (Ret_uint16 x, r, w'))"
| "R_step Call_read_mA r w = (let (x, w') = read_mA r w in (Ret_float x, r, w'))"
| "R_step (Call_poll_EMA now) r w = (let (b, r', w') = poll_EMA now r w in (Ret_bool b, r', w'))"
| "R_step Call_get_EMA_bitval r w = (Ret_float (get_EMA_bitval r), r, w)"
| "R_step Call_get_EMA_mA r w = (Ret_float (get_EMA_mA r), r, w)"
| "R_step Call_get_EMA_obtained_interval r w = (Ret_uint32 (get_EMA_obtained_interval r), r, w)"

fun R_calls :: "R_call list \<Rightarrow> R_Click \<Rightarrow> world \<Rightarrow> R_return list \<times> R_Click \<times> world" where
  "R_calls [] r w = ([], r, w)"
| "R_calls (c # cs) r w =
     (let (x, r', w') = R_step c r w;
          (xs, r'', w'') = R_calls cs r' w'
      in (x # xs, r'', w''))"

text \<open>The value of \<^verbatim>\<open>EMA_at_startup_\<close> before the first call and after each call.\<close>

fun startup_history :: "R_call list \<Rightarrow> R_Click \<Rightarrow> world \<Rightarrow> bool list" where
  "startup_history [] r w = [EMA_at_startup r]"
| "startup_history (c # cs) r w =
     EMA_at_startup r # (let (x, r', w') = R_step c r w in startup_history cs r' w')"

text \<open>The changes of value along a history, each as the pair (before, after).\<close>

fun transitions :: "bool list \<Rightarrow> (bool \<times> bool) list" where
  "transitions (a # b # bs) = (if a = b then transitions (b # bs) else (a, b) # transitions (b # bs))"
| "transitions bs = []"

subsection \<open>The clock and the chip\<close>

text \<open>
  \<^verbatim>\<open>micros()\<close> of the Arduino core returns the number of microseconds since
  power-up as a \<^verbatim>\<open>uint32_t\<close>, so the counter starts again at 0 every
  \<open>2 ^ 32\<close> microseconds: \<open>micros t\<close> is its reading \<open>t\<close> microseconds
  after power-up.
\<close>

definition micros :: "nat \<Rightarrow> uint32_t" where
  "micros t = of_nat t"

text \<open>
  The two bytes with which the MCP3201 answers (figure 6-1 of its datasheet, which the
  source cites): in the first byte two bits of unknown level and a null bit, then D11 to
  D7; in the second byte D6 to D0 and one more bit. \<open>x\<close> gives the bits that do not
  belong to the 12-bit conversion result \<open>d\<close>.
\<close>

definition MCP3201_response :: "uint16_t \<Rightarrow> byte \<Rightarrow> byte \<times> byte" where
  "MCP3201_response d x =
     ((x AND 0xC0) OR ucast (drop_bit 7 (d AND 0x0FFF)), ucast (push_bit 1 d) OR (x AND 1))"

subsection \<open>Objects of the examples\<close>

text \<open>
  The calibration of the end-to-end scenarios, an R Click with the EMA parameters of the
  example sketch (2000 microseconds, 10 Hz), and a board whose ADC answers every
  exchange with the bytes \<^verbatim>\<open>0x12 0xC1\<close> (the reading 2400).
\<close>

definition example_calib :: RT_Click_Calibration where
  "example_calib = \<lparr>p1_mA = Fin 4, p2_mA = Fin 20, p1_bitval = 800, p2_bitval = 4000\<rparr>"

definition example_world :: world where
  "example_world = \<lparr>trace = [], sdo = (\<lambda>k. if even k then 0x12 else 0xC1), transfers = 0\<rparr>"

definition example_R_Click :: R_Click where
  "example_R_Click = new_R_Click_EMA 5 example_calib 2000 (Fin 10) 0 0"

section \<open>Properties\<close>

subsection \<open>What one SPI exchange does\<close>

lemma read_bitval_eq:
  "read_bitval r w =
     (reconstruct (sdo w (transfers w) AND 0x1F) (sdo w (Suc (transfers w))),
      w\<lparr>trace := trace w @ [BeginTransaction (SPI_clock r), DigitalWrite (CS_pin r) LOW,
           Transfer 0xFF, Transfer 0xFF, DigitalWrite (CS_pin r) HIGH, EndTransaction],
        transfers := Suc (Suc (transfers w))\<rparr>)"
  by (simp add: read_bitval_def SPI_transfer_def emit_def Let_def)

lemma set_mA_eq:
  "set_mA mA t w =
     (t\<lparr>T_bitval := mA2bitval (T_calib t) mA\<rparr>,
      w\<lparr>trace := trace w @ [BeginTransaction (T_SPI_clock t), DigitalWrite (T_CS_pin t) LOW,
           Transfer (bitval_HI (mA2bitval (T_calib t) mA)),
           Transfer (bitval_LO (mA2bitval (T_calib t) mA)),
           DigitalWrite (T_CS_pin t) HIGH, EndTransaction],
        transfers := Suc (Suc (transfers w))\<rparr>)"
  by (simp add: set_mA_def SPI_transfer_def emit_def Let_def)

subsection \<open>Polling before the interval has passed\<close>

text \<open>
  C3. If \<open>now - EMA_tick\<close>, computed on 32-bit unsigned integers, is less than the
  configured oversampling interval, \<^verbatim>\<open>poll_EMA\<close> returns false and changes
  nothing: the object keeps every field (the running EMA value, the time of the last
  sample, the startup flag, the last obtained interval) and the world is the same, so no
  SPI transfer has been made and no sample read.
\<close>

theorem poll_EMA_not_due:
  "now - EMA_tick r < EMA_interval r \<Longrightarrow> poll_EMA now r w = (False, r, w)"
  by (simp add: poll_EMA_def linorder_not_le [symmetric])

theorem poll_EMA_not_due_witness:
  "(1999 :: uint32_t) - EMA_tick example_R_Click < EMA_interval example_R_Click \<and>
   poll_EMA 1999 example_R_Click example_world = (False, example_R_Click, example_world)"
proof -
  have h: "(1999 :: uint32_t) - EMA_tick example_R_Click < EMA_interval example_R_Click"
    by (simp add: example_R_Click_def new_R_Click_EMA_def new_R_Click_def)
  show ?thesis using h poll_EMA_not_due [OF h, of example_world] by simp
qed

subsection \<open>Bytes on the wire\<close>

lemma x30_bits: "(0x30 :: byte) = push_bit 4 (mask 2)"
  by (simp add: mask_eq_exp_minus_1)

lemma x0F_bits: "(0x0F :: uint16_t) = mask 4"
  by (simp add: mask_eq_exp_minus_1)

lemma xF0_bits: "(0xF0 :: byte) = push_bit 4 (mask 4)"
  by (simp add: mask_eq_exp_minus_1)

lemma x1F_bits: "(0x1F :: byte) = mask 5"
  by (simp add: mask_eq_exp_minus_1)

lemma xC0_bits: "(0xC0 :: byte) = push_bit 6 (mask 2)"
  by (simp add: mask_eq_exp_minus_1)

lemma xFFF_bits: "(0x0FFF :: uint16_t) = mask 12"
  by (simp add: mask_eq_exp_minus_1)

lemma bit_bitval_HI:
  "bit (bitval_HI b) n = (if n < 4 then bit b (n + 8) else n = 4 \<or> n = 5)"
  unfolding bitval_HI_def x30_bits x0F_bits
  by (auto simp add: bit_simps add.commute)

lemma bitval_HI_upper: "bitval_HI b AND 0xF0 = 0x30"
  unfolding x30_bits xF0_bits
  by (rule bit_word_eqI) (auto simp add: bit_simps bit_bitval_HI)

lemma bit_reconstruct:
  "bit (reconstruct (hi AND 0x1F) lo) n =
     (if n < 7 then bit lo (n + 1) else n < 12 \<and> bit hi (n - 7))"
  unfolding reconstruct_def x1F_bits
  by (auto simp add: bit_simps dest: bit_imp_le_length)

lemma unat_byte_less: "unat (b :: byte) < 256"
  using unsigned_less [of b] by simp

lemma cat_add:
  "push_bit 8 (ucast (h::byte) :: uint16_t) OR ucast (l::byte) = push_bit 8 (ucast h) + ucast l"
  by (rule disjunctive_add [symmetric]) (auto simp add: bit_simps dest: bit_imp_le_length)

lemma unat_cat:
  "unat (push_bit 8 (ucast (h::byte) :: uint16_t) OR ucast (l::byte)) = unat h * 256 + unat l"
proof -
  have h: "unat h < 256" and l: "unat l < 256"
    by (rule unat_byte_less)+
  have uh: "unat (ucast h :: uint16_t) = unat h"
    using h by (simp add: unsigned_ucast_eq take_bit_eq_mod)
  have ul: "unat (ucast l :: uint16_t) = unat l"
    using l by (simp add: unsigned_ucast_eq take_bit_eq_mod)
  have "unat (push_bit 8 (ucast h :: uint16_t)) = unat h * 256"
    using h by (simp add: push_bit_eq_mult unat_word_ariths uh)
  then show ?thesis
    using h l unfolding cat_add by (simp add: unat_word_ariths ul)
qed

lemma unat_reconstruct: "unat (reconstruct hi lo) = (unat hi * 256 + unat lo) div 2"
  unfolding reconstruct_def
  by (simp add: drop_bit_eq_div unat_div unat_cat)

lemma unat_mask_1F: "unat (b AND 0x1F :: byte) = unat b mod 32"
proof -
  have "unat (b AND mask 5) = take_bit 5 (unat b)"
    by (simp only: unsigned_take_bit_eq flip: take_bit_eq_mask)
  then show ?thesis
    by (simp add: x1F_bits take_bit_eq_mod)
qed

text \<open>
  With the bytes of the MCP3201 the reconstruction returns the conversion result of the
  chip, whatever the levels of the bits that do not belong to it.
\<close>

lemma bit_double_word: "bit (d * 2 :: uint16_t) (Suc n) = (n < 15 \<and> bit d n)"
  using bit_push_bit_iff [of 1 d "Suc n"] by auto

lemma reconstruct_response:
  "reconstruct (fst (MCP3201_response d x) AND 0x1F) (snd (MCP3201_response d x)) = d AND 0x0FFF"
  unfolding MCP3201_response_def xFFF_bits xC0_bits
  apply (rule bit_word_eqI)
  apply (auto simp add: bit_simps bit_reconstruct bit_double_word dest: bit_imp_le_length)
  done

text \<open>
  C5. \<^verbatim>\<open>read_bitval\<close> makes one SPI exchange of two transfers. The first
  returned byte is masked with \<^verbatim>\<open>0x1F\<close>, which isolates its five low-order
  bits (the three leading bits, two of unknown level and the null bit, are dropped); the
  five bits are put in front of the second byte, which gives a 13-bit quantity, and that
  quantity is shifted right by one bit. For every pair of returned bytes the result is the
  12-bit number made of those five bits and the seven high-order bits of the second byte,
  an unsigned integer in [0, 4095]; when the two bytes are the answer of the MCP3201, it is
  the conversion result of the chip.
\<close>

theorem read_bitval_reconstructs:
  "fst (read_bitval r w) =
     drop_bit 1 (push_bit 8 (ucast (sdo w (transfers w) AND 0x1F) :: uint16_t)
                 OR ucast (sdo w (Suc (transfers w))))
   \<and> unat (sdo w (transfers w) AND 0x1F) = unat (sdo w (transfers w)) mod 32
   \<and> unat (sdo w (transfers w) AND 0x1F) * 256 + unat (sdo w (Suc (transfers w))) < 2 ^ 13
   \<and> unat (fst (read_bitval r w)) =
       (unat (sdo w (transfers w) AND 0x1F) * 256 + unat (sdo w (Suc (transfers w)))) div 2
   \<and> unat (fst (read_bitval r w)) \<le> 4095
   \<and> ((sdo w (transfers w), sdo w (Suc (transfers w))) = MCP3201_response d x \<longrightarrow>
        fst (read_bitval r w) = d AND 0x0FFF)
   \<and> trace (snd (read_bitval r w)) =
       trace w @ [BeginTransaction (SPI_clock r), DigitalWrite (CS_pin r) LOW,
         Transfer 0xFF, Transfer 0xFF, DigitalWrite (CS_pin r) HIGH, EndTransaction]
   \<and> transfers (snd (read_bitval r w)) = transfers w + 2"
proof -
  let ?hi = "sdo w (transfers w) AND 0x1F" and ?lo = "sdo w (Suc (transfers w))"
  have hi: "unat ?hi < 32" by (simp add: unat_mask_1F)
  have lo: "unat ?lo < 256" by (rule unat_byte_less)
  have val: "unat (fst (read_bitval r w)) = (unat ?hi * 256 + unat ?lo) div 2"
    by (simp add: read_bitval_eq unat_reconstruct)
  have "fst (read_bitval r w) = drop_bit 1 (push_bit 8 (ucast ?hi :: uint16_t) OR ucast ?lo)"
    by (simp add: read_bitval_eq reconstruct_def)
  moreover have "unat ?hi * 256 + unat ?lo < 2 ^ 13" using hi lo by simp
  moreover have "unat (fst (read_bitval r w)) \<le> 4095" using hi lo unfolding val by simp
  moreover have "(sdo w (transfers w), sdo w (Suc (transfers w))) = MCP3201_response d x \<longrightarrow>
        fst (read_bitval r w) = d AND 0x0FFF"
  proof
    assume a: "(sdo w (transfers w), sdo w (Suc (transfers w))) = MCP3201_response d x"
    have "fst (read_bitval r w) =
        reconstruct (fst (sdo w (transfers w), sdo w (Suc (transfers w))) AND 0x1F)
          (snd (sdo w (transfers w), sdo w (Suc (transfers w))))"
      by (simp add: read_bitval_eq)
    then show "fst (read_bitval r w) = d AND 0x0FFF"
      unfolding a by (simp only: reconstruct_response)
  qed
  moreover have "trace (snd (read_bitval r w)) =
       trace w @ [BeginTransaction (SPI_clock r), DigitalWrite (CS_pin r) LOW,
         Transfer 0xFF, Transfer 0xFF, DigitalWrite (CS_pin r) HIGH, EndTransaction]"
    "transfers (snd (read_bitval r w)) = transfers w + 2"
    by (simp_all add: read_bitval_eq)
  ultimately show ?thesis using val unat_mask_1F by blast
qed

theorem read_bitval_reconstructs_witness:
  "(sdo example_world (transfers example_world), sdo example_world (Suc (transfers example_world)))
     = MCP3201_response 2400 1
   \<and> fst (read_bitval example_R_Click example_world) = 2400"
proof -
  have a: "(sdo example_world (transfers example_world),
            sdo example_world (Suc (transfers example_world))) = MCP3201_response 2400 1"
    by (simp add: example_world_def MCP3201_response_def)
  have "fst (read_bitval example_R_Click example_world) = 2400 AND 0x0FFF"
    using read_bitval_reconstructs [of example_R_Click example_world 2400 1] a by blast
  then have "fst (read_bitval example_R_Click example_world) = 2400"
    by simp
  with a show ?thesis by (rule conjI)
qed

text \<open>
  C10. For every current passed to \<^verbatim>\<open>set_mA\<close>, also one whose bit value
  exceeds 4095, the first byte transferred has 0011 as its upper four bits (write to DAC\_B,
  unbuffered, 1x gain, output buffer enabled) and bits 11 to 8 of the computed bit value as
  its lower four bits: bits 12 to 15 of the bit value never reach the byte.
\<close>

theorem set_mA_high_byte:
  "trace (snd (set_mA mA t w)) =
     trace w @ [BeginTransaction (T_SPI_clock t), DigitalWrite (T_CS_pin t) LOW,
       Transfer (bitval_HI (mA2bitval (T_calib t) mA)),
       Transfer (bitval_LO (mA2bitval (T_calib t) mA)),
       DigitalWrite (T_CS_pin t) HIGH, EndTransaction]
   \<and> bitval_HI (mA2bitval (T_calib t) mA) AND 0xF0 = 0x30
   \<and> (\<forall>n. bit (bitval_HI (mA2bitval (T_calib t) mA)) n =
         (if n < 4 then bit (mA2bitval (T_calib t) mA) (n + 8) else n = 4 \<or> n = 5))"
  by (simp add: set_mA_eq bitval_HI_upper bit_bitval_HI)

subsection \<open>Elapsed time across a wrap of the counter\<close>

lemma elapsed_mod: "uint (now - tick :: uint32_t) = (uint now - uint tick) mod 2 ^ 32"
  by (simp add: uint_word_ariths)

lemma elapsed_true:
  assumes "t_tick \<le> t_now" "t_now - t_tick < 2 ^ 32"
  shows "unat (micros t_now - micros t_tick) = t_now - t_tick"
proof -
  have "micros t_now - micros t_tick = (of_nat (t_now - t_tick) :: uint32_t)"
    using assms(1) by (simp add: micros_def of_nat_diff)
  then show ?thesis
    using assms(2) by (simp add: unat_of_nat take_bit_eq_mod)
qed

lemma poll_EMA_fst: "fst (poll_EMA now r w) = (EMA_interval r \<le> now - EMA_tick r)"
  by (simp add: poll_EMA_def Let_def split_def)

lemma poll_EMA_obtained:
  "EMA_interval r \<le> now - EMA_tick r \<Longrightarrow>
   EMA_obtained_interval (fst (snd (poll_EMA now r w))) = now - EMA_tick r"
  by (simp add: poll_EMA_def Let_def split_def)

text \<open>
  C9. The elapsed time that \<^verbatim>\<open>poll_EMA\<close> uses, in the test whether a sample
  is due and as the stored obtained interval, is \<open>(now - tick) mod 2 ^ 32\<close> for every
  pair of 32-bit readings. When the last sample was taken \<open>t_tick\<close> microseconds after
  power-up and the call is made at \<open>t_now\<close>, less than \<open>2 ^ 32\<close> microseconds
  later, that value is the true elapsed time \<open>t_now - t_tick\<close>, also when the counter
  has wrapped around between the two readings.
\<close>

theorem poll_EMA_elapsed_wraparound:
  "fst (poll_EMA now r w) = (uint (EMA_interval r) \<le> (uint now - uint (EMA_tick r)) mod 2 ^ 32)
   \<and> (fst (poll_EMA now r w) \<longrightarrow>
        uint (EMA_obtained_interval (fst (snd (poll_EMA now r w)))) =
        (uint now - uint (EMA_tick r)) mod 2 ^ 32)
   \<and> (t_tick \<le> t_now \<and> t_now - t_tick < 2 ^ 32 \<and> EMA_tick r = micros t_tick \<and> now = micros t_now \<longrightarrow>
        fst (poll_EMA now r w) = (unat (EMA_interval r) \<le> t_now - t_tick)
        \<and> (fst (poll_EMA now r w) \<longrightarrow>
             unat (EMA_obtained_interval (fst (snd (poll_EMA now r w)))) = t_now - t_tick))"
proof (intro conjI impI)
  show "fst (poll_EMA now r w) = (uint (EMA_interval r) \<le> (uint now - uint (EMA_tick r)) mod 2 ^ 32)"
    by (simp only: poll_EMA_fst word_le_def elapsed_mod)
next
  assume "fst (poll_EMA now r w)"
  then show "uint (EMA_obtained_interval (fst (snd (poll_EMA now r w)))) =
        (uint now - uint (EMA_tick r)) mod 2 ^ 32"
    by (simp only: poll_EMA_fst poll_EMA_obtained elapsed_mod)
next
  assume a: "t_tick \<le> t_now \<and> t_now - t_tick < 2 ^ 32 \<and> EMA_tick r = micros t_tick \<and> now = micros t_now"
  then have e: "unat (now - EMA_tick r) = t_now - t_tick"
    using elapsed_true by simp
  show "fst (poll_EMA now r w) = (unat (EMA_interval r) \<le> t_now - t_tick)"
    by (simp only: poll_EMA_fst word_le_nat_alt e)
  assume "fst (poll_EMA now r w)"
  then show "unat (EMA_obtained_interval (fst (snd (poll_EMA now r w)))) = t_now - t_tick"
    by (simp only: poll_EMA_fst poll_EMA_obtained e)
qed

theorem poll_EMA_elapsed_wraparound_witness:
  "fst (poll_EMA (micros 4294969196) (example_R_Click\<lparr>EMA_tick := micros 4294967196\<rparr>) example_world)
   \<and> unat (EMA_obtained_interval (fst (snd
        (poll_EMA (micros 4294969196) (example_R_Click\<lparr>EMA_tick := micros 4294967196\<rparr>)
           example_world)))) = 2000
   \<and> micros 4294969196 = 1900 \<and> micros 4294967196 = 4294967196"
  using poll_EMA_elapsed_wraparound [of "micros 4294969196"
      "example_R_Click\<lparr>EMA_tick := micros 4294967196\<rparr>" example_world 4294967196 4294969196]
  by (simp add: micros_def example_R_Click_def new_R_Click_EMA_def new_R_Click_def)

subsection \<open>NAN in the arithmetic\<close>

lemma float_NaN_right [simp]:
  "x + NaN = NaN" "x - NaN = NaN" "x * NaN = NaN" "x / NaN = NaN" "\<not> x < NaN" "\<not> x \<le> NaN"
  by (cases x; simp add: minus_float_def)+

lemma float_NaN_left [simp]:
  "NaN + x = NaN" "NaN - x = NaN" "NaN * x = NaN" "NaN / x = NaN" "\<not> NaN < x" "\<not> NaN \<le> x"
  by (simp_all add: minus_float_def)

subsection \<open>A sampling call\<close>

lemma poll_EMA_due:
  "EMA_interval r \<le> now - EMA_tick r \<Longrightarrow>
   poll_EMA now r w =
     (True,
      r\<lparr>EMA_bitval :=
          (if EMA_at_startup r then float_of_uint16 (fst (read_bitval r w))
           else EMA_bitval r + EMA_alpha (now - EMA_tick r) (EMA_LP_freq r) *
                  (float_of_uint16 (fst (read_bitval r w)) - EMA_bitval r)),
        EMA_at_startup := False, EMA_tick := now, EMA_obtained_interval := now - EMA_tick r\<rparr>,
      snd (read_bitval r w))"
  by (simp add: poll_EMA_def read_bitval_eq Let_def)

lemma R_step_startup:
  "EMA_at_startup (fst (snd (R_step c r w))) =
     (EMA_at_startup r \<and> fst (R_step c r w) \<noteq> Ret_bool True)"
  by (cases c) (auto simp add: poll_EMA_def R_set_SPI_clock_def Let_def split_def)

lemma startup_history_Cons:
  "transitions (a # startup_history cs r w) =
     (if a = EMA_at_startup r then transitions (startup_history cs r w)
      else (a, EMA_at_startup r) # transitions (startup_history cs r w))"
  by (cases cs) (simp_all add: split_def)

lemma transitions_startup_history:
  "transitions (startup_history cs r w) =
     (if EMA_at_startup r \<and> Ret_bool True \<in> set (fst (R_calls cs r w))
      then [(True, False)] else [])"
proof (induction cs arbitrary: r w)
  case Nil
  show ?case by simp
next
  case (Cons c cs)
  obtain x r' w' where step: "R_step c r w = (x, r', w')"
    by (cases "R_step c r w")
  have flag: "EMA_at_startup r' = (EMA_at_startup r \<and> x \<noteq> Ret_bool True)"
    using R_step_startup [of c r w] by (simp add: step)
  show ?case
    using Cons.IH [of r' w'] flag
    by (auto simp add: step startup_history_Cons split_def Let_def)
qed

text \<open>
  C2. A call of \<^verbatim>\<open>poll_EMA\<close> that takes a sample while the startup flag is
  set (Seeding) stores the raw sample itself as the running EMA value, with no blending
  with the NAN it held, and clears the flag (Steady). A sampling call with the flag clear
  updates the running value by \<open>running + alpha * (raw - running)\<close> and leaves the
  flag clear. Along every sequence of calls of the public methods the flag changes at most
  once, from set to clear, at the first call of \<^verbatim>\<open>poll_EMA\<close> that returns
  true, and never back.
\<close>

theorem EMA_seeding_then_steady:
  "(EMA_interval r \<le> now - EMA_tick r \<and> EMA_at_startup r \<longrightarrow>
      fst (poll_EMA now r w)
      \<and> EMA_bitval (fst (snd (poll_EMA now r w))) = float_of_uint16 (fst (read_bitval r w))
      \<and> \<not> EMA_at_startup (fst (snd (poll_EMA now r w))))
   \<and> (EMA_interval r \<le> now - EMA_tick r \<and> \<not> EMA_at_startup r \<longrightarrow>
      fst (poll_EMA now r w)
      \<and> EMA_bitval (fst (snd (poll_EMA now r w))) =
          EMA_bitval r + EMA_alpha (now - EMA_tick r) (EMA_LP_freq r) *
            (float_of_uint16 (fst (read_bitval r w)) - EMA_bitval r)
      \<and> \<not> EMA_at_startup (fst (snd (poll_EMA now r w))))
   \<and> transitions (startup_history cs r w) =
       (if EMA_at_startup r \<and> Ret_bool True \<in> set (fst (R_calls cs r w))
        then [(True, False)] else [])"
  by (simp add: poll_EMA_due transitions_startup_history)


lemma example_first_poll:
  "poll_EMA 2000 example_R_Click example_world =
     (True,
      example_R_Click\<lparr>EMA_bitval := Fin 2400, EMA_at_startup := False, EMA_tick := 2000,
        EMA_obtained_interval := 2000\<rparr>,
      example_world\<lparr>trace := [BeginTransaction 1000000, DigitalWrite 5 LOW, Transfer 0xFF,
          Transfer 0xFF, DigitalWrite 5 HIGH, EndTransaction],
        transfers := 2\<rparr>)"
  apply (subst poll_EMA_due)
   apply (simp add: example_R_Click_def new_R_Click_EMA_def new_R_Click_def)
  apply (simp add: read_bitval_eq example_R_Click_def new_R_Click_EMA_def new_R_Click_def
      example_world_def reconstruct_def float_of_uint16_def float_of_int_def
      DEFAULT_RT_CLICK_SPI_CLOCK_def)
  done


lemma example_not_due: "poll_EMA 1000 example_R_Click example_world = (False, example_R_Click, example_world)"
  by (simp add: poll_EMA_def example_R_Click_def new_R_Click_EMA_def new_R_Click_def)

lemma example_calls:
  "fst (R_calls [Call_poll_EMA 1000, Call_get_EMA_mA, Call_poll_EMA 2000, Call_poll_EMA 2500]
     example_R_Click example_world) = [Ret_bool False, Ret_float NaN, Ret_bool True, Ret_bool False]"
  apply (simp add: example_not_due example_first_poll Let_def)
  apply (simp add: poll_EMA_def get_EMA_mA_def example_R_Click_def new_R_Click_EMA_def new_R_Click_def
     get_EMA_mA_def bitval2mA_def linear_mA_def classify_def minus_float_def R_CLICK_FAULT_mA_def)
  done

theorem EMA_seeding_then_steady_witness:
  "EMA_interval example_R_Click \<le> 2000 - EMA_tick example_R_Click
   \<and> EMA_at_startup example_R_Click
   \<and> fst (poll_EMA 2000 example_R_Click example_world)
   \<and> EMA_bitval (fst (snd (poll_EMA 2000 example_R_Click example_world))) = Fin 2400
   \<and> \<not> EMA_at_startup (fst (snd (poll_EMA 2000 example_R_Click example_world)))
   \<and> fst (poll_EMA 6000 (fst (snd (poll_EMA 2000 example_R_Click example_world))) example_world)
   \<and> EMA_bitval (fst (snd (poll_EMA 6000 (fst (snd (poll_EMA 2000 example_R_Click example_world)))
         example_world))) =
       Fin 2400 + EMA_alpha 4000 (Fin (10 / 10 ^ 6)) * (Fin 2400 - Fin 2400)
   \<and> transitions (startup_history
         [Call_poll_EMA 1000, Call_get_EMA_mA, Call_poll_EMA 2000, Call_poll_EMA 2500]
         example_R_Click example_world) = [(True, False)]"
proof -
  let ?r1 = "fst (snd (poll_EMA 2000 example_R_Click example_world))"
  have r1: "?r1 = example_R_Click\<lparr>EMA_bitval := Fin 2400, EMA_at_startup := False,
      EMA_tick := 2000, EMA_obtained_interval := 2000\<rparr>"
    by (simp add: example_first_poll)
  have raw: "float_of_uint16 (fst (read_bitval r example_world)) = Fin 2400" for r
    by (simp add: read_bitval_eq example_world_def reconstruct_def float_of_uint16_def
        float_of_int_def)
  have ex: "EMA_interval example_R_Click = 2000" "EMA_tick example_R_Click = 0"
    "EMA_at_startup example_R_Click" "EMA_LP_freq example_R_Click = Fin (10 / 10 ^ 6)"
    by (simp_all add: example_R_Click_def new_R_Click_EMA_def new_R_Click_def)
  note a = EMA_seeding_then_steady [of example_R_Click 2000 example_world
        "[Call_poll_EMA 1000, Call_get_EMA_mA, Call_poll_EMA 2000, Call_poll_EMA 2500]"]
  note b = EMA_seeding_then_steady [of ?r1 6000 example_world "[]"]
  have "transitions (startup_history
         [Call_poll_EMA 1000, Call_get_EMA_mA, Call_poll_EMA 2000, Call_poll_EMA 2500]
         example_R_Click example_world) = [(True, False)]"
    using a by (simp only: example_calls) (simp add: ex)
  moreover have "EMA_interval example_R_Click \<le> 2000 - EMA_tick example_R_Click"
    by (simp add: ex)
  moreover have "EMA_interval ?r1 \<le> 6000 - EMA_tick ?r1" "\<not> EMA_at_startup ?r1"
    "EMA_LP_freq ?r1 = Fin (10 / 10 ^ 6)" "EMA_bitval ?r1 = Fin 2400" "6000 - EMA_tick ?r1 = 4000"
    by (simp_all add: r1 ex)
  ultimately show ?thesis
    using a b ex(3) by (simp add: raw)
qed

subsection \<open>Before the first sample\<close>

lemma classify_NaN [simp]: "classify NaN = NaN"
  by (simp add: classify_def)

lemma bitval2mA_NaN [simp]: "bitval2mA cal NaN = NaN"
  by (simp add: bitval2mA_def linear_mA_def)

lemma R_step_no_sample:
  "fst (R_step c r w) \<noteq> Ret_bool True \<Longrightarrow>
   EMA_bitval (fst (snd (R_step c r w))) = EMA_bitval r
   \<and> EMA_at_startup (fst (snd (R_step c r w))) = EMA_at_startup r"
  by (cases c) (auto simp add: poll_EMA_def R_set_SPI_clock_def Let_def split_def)

lemma R_calls_no_sample:
  "Ret_bool True \<notin> set (fst (R_calls cs r w)) \<Longrightarrow>
   EMA_bitval (fst (snd (R_calls cs r w))) = EMA_bitval r
   \<and> EMA_at_startup (fst (snd (R_calls cs r w))) = EMA_at_startup r"
proof (induction cs arbitrary: r w)
  case Nil
  show ?case by simp
next
  case (Cons c cs)
  obtain x r' w' where step: "R_step c r w = (x, r', w')"
    by (cases "R_step c r w")
  from Cons.prems have x: "x \<noteq> Ret_bool True"
    and rest: "Ret_bool True \<notin> set (fst (R_calls cs r' w'))"
    by (auto simp add: step split_def Let_def)
  have "EMA_bitval r' = EMA_bitval r \<and> EMA_at_startup r' = EMA_at_startup r"
    using R_step_no_sample [of c r w] x by (simp add: step)
  with Cons.IH [OF rest] show ?case
    by (simp add: step split_def Let_def)
qed

lemma R_calls_sampled:
  "Ret_bool True \<in> set (fst (R_calls cs r w)) \<Longrightarrow> \<not> EMA_at_startup (fst (snd (R_calls cs r w)))"
proof (induction cs arbitrary: r w)
  case Nil
  then show ?case by simp
next
  case (Cons c cs)
  obtain x r' w' where step: "R_step c r w = (x, r', w')"
    by (cases "R_step c r w")
  have flag: "EMA_at_startup r' = (EMA_at_startup r \<and> x \<noteq> Ret_bool True)"
    using R_step_startup [of c r w] by (simp add: step)
  show ?case
  proof (cases "Ret_bool True \<in> set (fst (R_calls cs r' w'))")
    case True
    from Cons.IH [OF True] show ?thesis by (simp add: step split_def Let_def)
  next
    case False
    with Cons.prems have "x = Ret_bool True" by (auto simp add: step split_def Let_def)
    with flag have "\<not> EMA_at_startup r'" by simp
    with R_calls_no_sample [OF False] show ?thesis by (simp add: step split_def Let_def)
  qed
qed

text \<open>
  C8. After either constructor and any sequence of calls of the public methods, the filter
  is still in the Seeding state exactly when no call of \<^verbatim>\<open>poll_EMA\<close> has
  returned true; then \<^verbatim>\<open>get_EMA_bitval\<close> returns the NAN with which the
  running value was initialised and \<^verbatim>\<open>get_EMA_mA\<close> returns NAN too, the
  value that signals a fault of the current loop.
\<close>

theorem EMA_is_NaN_before_first_sample:
  assumes "r0 = new_R_Click pin cal micros0 uninit
           \<or> r0 = new_R_Click_EMA pin cal interval LP_freq micros0 uninit"
  shows "EMA_at_startup (fst (snd (R_calls cs r0 w))) =
           (Ret_bool True \<notin> set (fst (R_calls cs r0 w)))
         \<and> (Ret_bool True \<notin> set (fst (R_calls cs r0 w)) \<longrightarrow>
              get_EMA_bitval (fst (snd (R_calls cs r0 w))) = NaN
              \<and> get_EMA_mA (fst (snd (R_calls cs r0 w))) = NaN)"
proof -
  from assms have init: "EMA_at_startup r0" "EMA_bitval r0 = NaN"
    by (auto simp add: new_R_Click_def new_R_Click_EMA_def)
  show ?thesis
    using R_calls_no_sample [of cs r0 w] R_calls_sampled [of cs r0 w] init
    by (auto simp add: get_EMA_bitval_def get_EMA_mA_def)
qed

lemma example_calls_no_sample:
  "R_calls [Call_begin, Call_poll_EMA 1000, Call_read_bitval, Call_poll_EMA 1999] example_R_Click example_world
    = ([Ret_void, Ret_bool False, Ret_uint16 2400, Ret_bool False], example_R_Click, 
       example_world\<lparr>trace := [SPI_begin, DigitalWrite 5 HIGH, PinMode_OUTPUT 5,
          BeginTransaction 1000000, DigitalWrite 5 LOW, Transfer 0xFF,
          Transfer 0xFF, DigitalWrite 5 HIGH, EndTransaction],
        transfers := 2\<rparr>)"
  by (simp add: poll_EMA_def read_bitval_eq R_begin_def emit_def Let_def reconstruct_def
      example_R_Click_def new_R_Click_EMA_def new_R_Click_def example_world_def
      DEFAULT_RT_CLICK_SPI_CLOCK_def)

theorem EMA_is_NaN_before_first_sample_witness:
  "example_R_Click = new_R_Click_EMA 5 example_calib 2000 (Fin 10) 0 0
   \<and> Ret_bool True \<notin> set (fst (R_calls
        [Call_begin, Call_poll_EMA 1000, Call_read_bitval, Call_poll_EMA 1999]
        example_R_Click example_world))
   \<and> get_EMA_bitval (fst (snd (R_calls
        [Call_begin, Call_poll_EMA 1000, Call_read_bitval, Call_poll_EMA 1999]
        example_R_Click example_world))) = NaN
   \<and> get_EMA_mA (fst (snd (R_calls
        [Call_begin, Call_poll_EMA 1000, Call_read_bitval, Call_poll_EMA 1999]
        example_R_Click example_world))) = NaN"
proof -
  have r: "example_R_Click = new_R_Click 5 example_calib 0 0
           \<or> example_R_Click = new_R_Click_EMA 5 example_calib 2000 (Fin 10) 0 0"
    by (simp add: example_R_Click_def)
  have n: "Ret_bool True \<notin> set (fst (R_calls
        [Call_begin, Call_poll_EMA 1000, Call_read_bitval, Call_poll_EMA 1999]
        example_R_Click example_world))"
    by (simp only: example_calls_no_sample) simp
  show ?thesis
    using EMA_is_NaN_before_first_sample [OF r,
        of "[Call_begin, Call_poll_EMA 1000, Call_read_bitval, Call_poll_EMA 1999]" example_world] n
    by (simp add: example_R_Click_def)
qed

subsection \<open>The fault threshold\<close>

lemma classify_Fin: "classify (Fin m) = (if m \<le> 38 / 10 then NaN else Fin m)"
  by (simp add: classify_def R_CLICK_FAULT_mA_def)

lemma classify_infinite: "classify PInf = PInf" "classify MInf = NaN"
  by (simp_all add: classify_def R_CLICK_FAULT_mA_def)

lemma classify_eq_Fin: "classify x = Fin m \<Longrightarrow> 38 / 10 < m"
  by (cases x) (simp_all add: classify_Fin classify_infinite split: if_splits)

text \<open>
  The constant of the source is the binary32 number nearest to 3.8, which is
  \<open>15938355 / 2 ^ 22\<close>. The binary32 numbers from 2 to 4 are the multiples of
  \<open>1 / 2 ^ 22\<close>, and none of them lies above the constant and at or below 3.8: on the
  values that a \<^verbatim>\<open>float\<close> takes, the comparison with the constant and the
  comparison with 3.8 agree.
\<close>

lemma threshold_on_binary32_grid:
  "(15938355 / 2 ^ 22 < real_of_int k / 2 ^ 22) = (38 / 10 < real_of_int k / 2 ^ 22)"
proof -
  have "(15938355 / 2 ^ 22 < real_of_int k / 2 ^ 22) = (15938355 < k)"
    by (simp add: divide_less_cancel)
  also have "\<dots> = (15938356 \<le> k)" by auto
  also have "\<dots> = (38 / 10 < real_of_int k / 2 ^ 22)"
  proof
    assume "15938356 \<le> k"
    then have "(15938356 :: real) \<le> real_of_int k" by linarith
    then show "38 / 10 < real_of_int k / 2 ^ 22" by (simp add: field_simps)
  next
    assume "38 / 10 < real_of_int k / 2 ^ 22"
    then have "(15938355 :: real) < real_of_int k" by (simp add: field_simps)
    then show "15938356 \<le> k" by linarith
  qed
  finally show ?thesis .
qed

text \<open>
  C4. \<^verbatim>\<open>bitval2mA\<close> ends with the comparison of the converted current
  with the fault threshold: a current that is not NAN is replaced by NAN if it is at most
  3.8 mA and returned unchanged otherwise. So no number at or below 3.8 is ever returned,
  neither by \<^verbatim>\<open>read_mA\<close> nor by \<^verbatim>\<open>get_EMA_mA\<close>.
\<close>

theorem bitval2mA_fault_classification:
  "bitval2mA cal b = classify (linear_mA cal b)
   \<and> classify (Fin m) = (if m \<le> 38 / 10 then NaN else Fin m)
   \<and> classify PInf = PInf \<and> classify MInf = NaN
   \<and> (bitval2mA cal b = Fin m \<longrightarrow> 38 / 10 < m)
   \<and> (fst (read_mA r w) = Fin m \<longrightarrow> 38 / 10 < m)
   \<and> (get_EMA_mA r = Fin m \<longrightarrow> 38 / 10 < m)"
  by (auto simp add: bitval2mA_def read_mA_def get_EMA_mA_def split_def Let_def classify_Fin
      classify_infinite dest: classify_eq_Fin)

lemma example_read_mA: "fst (read_mA example_R_Click example_world) = Fin 12"
  by (simp add: read_mA_def read_bitval_eq split_def example_world_def example_R_Click_def
      new_R_Click_EMA_def new_R_Click_def example_calib_def reconstruct_def bitval2mA_def
      linear_mA_def float_of_uint16_def float_of_int_def minus_float_def classify_Fin)

lemma example_bitval2mA_0:
  "linear_mA example_calib (float_of_uint16 0) = Fin 0
   \<and> bitval2mA example_calib (float_of_uint16 0) = NaN"
  by (simp add: example_calib_def bitval2mA_def
      linear_mA_def float_of_uint16_def float_of_int_def minus_float_def classify_Fin)

theorem bitval2mA_fault_classification_witness:
  "fst (read_mA example_R_Click example_world) = Fin 12 \<and> (38 / 10 :: real) < 12
   \<and> bitval2mA example_calib (float_of_uint16 2400) = Fin 12
   \<and> get_EMA_mA (example_R_Click\<lparr>EMA_bitval := Fin 2400\<rparr>) = Fin 12"
proof -
  have a: "bitval2mA example_calib (float_of_uint16 2400) = Fin 12"
    by (simp add: example_calib_def bitval2mA_def
      linear_mA_def float_of_uint16_def float_of_int_def minus_float_def classify_Fin)
  have b: "get_EMA_mA (example_R_Click\<lparr>EMA_bitval := Fin 2400\<rparr>) = Fin 12"
    by (simp add: get_EMA_mA_def example_R_Click_def
      new_R_Click_EMA_def new_R_Click_def example_calib_def bitval2mA_def
      linear_mA_def float_of_uint16_def float_of_int_def minus_float_def classify_Fin)
  show ?thesis
    using bitval2mA_fault_classification [of example_calib "float_of_uint16 2400" 12
        example_R_Click example_world]
      bitval2mA_fault_classification [of example_calib "float_of_uint16 2400" 12
        "example_R_Click\<lparr>EMA_bitval := Fin 2400\<rparr>" example_world]
      example_read_mA a b
    by simp
qed

subsection \<open>Rounding to single precision\<close>

lemma rte_near: "\<bar>real_of_int (round_ties_even t) - t\<bar> \<le> 1 / 2"
  unfolding round_ties_even_def by (auto; linarith)

lemma rte_of_int [simp]: "round_ties_even (real_of_int k) = k"
  unfolding round_ties_even_def by simp

lemma rte_mono:
  assumes "t \<le> u"
  shows "round_ties_even t \<le> round_ties_even u"
proof (rule ccontr)
  assume "\<not> round_ties_even t \<le> round_ties_even u"
  then have "round_ties_even u + 1 \<le> round_ties_even t" by simp
  then have a: "real_of_int (round_ties_even u) + 1 \<le> real_of_int (round_ties_even t)"
    by linarith
  have "u \<le> t" using a rte_near [of t] rte_near [of u] by linarith
  with assms have "t = u" by simp
  with \<open>\<not> round_ties_even t \<le> round_ties_even u\<close> show False by simp
qed

lemma rte_uminus: "round_ties_even (- t) = - round_ties_even t"
proof (cases "t = real_of_int \<lfloor>t\<rfloor>")
  case True
  then obtain k where "t = real_of_int k" by blast
  then show ?thesis using rte_of_int [of "- k"] by simp
next
  case False
  then have fl: "\<lfloor>- t\<rfloor> = - \<lfloor>t\<rfloor> - 1"
    by linarith
  show ?thesis
    unfolding round_ties_even_def fl using False
    by (auto; linarith)
qed


lemma binary32_ulp_pos: "0 < binary32_ulp x"
  by (simp add: binary32_ulp_def)

lemma binary32_ulp_uminus [simp]: "binary32_ulp (- x) = binary32_ulp x"
  by (simp add: binary32_ulp_def binary32_exponent_def)

lemma binary32_round_uminus: "binary32_round (- x) = - binary32_round x"
  by (simp add: binary32_round_def rte_uminus)

lemma binary32_round_0 [simp]: "binary32_round 0 = 0"
  using rte_of_int [of 0] by (simp add: binary32_round_def)

lemma binary32_round_near: "\<bar>binary32_round x - x\<bar> \<le> binary32_ulp x / 2"
proof -
  let ?u = "binary32_ulp x"
  have u: "0 < ?u" by (rule binary32_ulp_pos)
  have "binary32_round x - x = (real_of_int (round_ties_even (x / ?u)) - x / ?u) * ?u"
    using u by (simp add: binary32_round_def algebra_simps)
  then have "\<bar>binary32_round x - x\<bar> = \<bar>real_of_int (round_ties_even (x / ?u)) - x / ?u\<bar> * ?u"
    using u by (simp add: abs_mult)
  also have "\<dots> \<le> (1 / 2) * ?u"
    using rte_near [of "x / ?u"] u by (intro mult_right_mono) simp_all
  finally show ?thesis by simp
qed

lemma binary32_round_nonneg: "0 \<le> x \<Longrightarrow> 0 \<le> binary32_round x"
proof -
  assume "0 \<le> x"
  then have "0 \<le> x / binary32_ulp x" using binary32_ulp_pos [of x] by simp
  then have "round_ties_even 0 \<le> round_ties_even (x / binary32_ulp x)" by (rule rte_mono)
  then have "0 \<le> round_ties_even (x / binary32_ulp x)"
    using rte_of_int [of 0] by simp
  then show ?thesis
    using binary32_ulp_pos [of x] by (simp add: binary32_round_def)
qed

text \<open>A number of the normal range is at least \<open>2 ^ 23\<close> spacings large.\<close>

lemma powr_exponent_le:
  assumes "1 / 2 ^ 126 \<le> \<bar>x\<bar>"
  shows "2 powr real_of_int (binary32_exponent x) \<le> \<bar>x\<bar>"
proof -
  have "(0 :: real) < 1 / 2 ^ 126" by simp
  with assms have pos: "0 < \<bar>x\<bar>" by linarith
  have "(1 :: real) / 2 ^ 126 = 2 powr (- 126)"
    by (simp add: powr_minus_divide)
  then have "2 powr (- 126) \<le> \<bar>x\<bar>" using assms by simp
  then have "- 126 \<le> log 2 \<bar>x\<bar>"
    using pos by (simp add: le_log_iff)
  then have "- 126 \<le> \<lfloor>log 2 \<bar>x\<bar>\<rfloor>" by linarith
  then have e: "binary32_exponent x = \<lfloor>log 2 \<bar>x\<bar>\<rfloor>"
    by (simp add: binary32_exponent_def)
  have "real_of_int \<lfloor>log 2 \<bar>x\<bar>\<rfloor> \<le> log 2 \<bar>x\<bar>" by simp
  then have "2 powr real_of_int \<lfloor>log 2 \<bar>x\<bar>\<rfloor> \<le> 2 powr log 2 \<bar>x\<bar>"
    by (simp only: powr_le_cancel_iff) 
  also have "\<dots> = \<bar>x\<bar>" using pos by simp
  finally show ?thesis unfolding e .
qed

lemma binary32_round_relative:
  assumes "1 / 2 ^ 126 \<le> \<bar>x\<bar>"
  shows "\<bar>binary32_round x - x\<bar> \<le> \<bar>x\<bar> / 2 ^ 24"
proof -
  have "binary32_ulp x = 2 powr real_of_int (binary32_exponent x) / 2 ^ 23"
    by (simp add: binary32_ulp_def powr_diff) 
  also have "\<dots> \<le> \<bar>x\<bar> / 2 ^ 23"
    using powr_exponent_le [OF assms] by (simp add: divide_right_mono)
  finally have "binary32_ulp x / 2 \<le> \<bar>x\<bar> / 2 ^ 24" by simp
  with binary32_round_near [of x] show ?thesis by linarith
qed


lemma binary32_exponent_mono:
  assumes "0 < x" "x \<le> y"
  shows "binary32_exponent x \<le> binary32_exponent y"
proof -
  have "log 2 \<bar>x\<bar> \<le> log 2 \<bar>y\<bar>" using assms by simp
  then have "\<lfloor>log 2 \<bar>x\<bar>\<rfloor> \<le> \<lfloor>log 2 \<bar>y\<bar>\<rfloor>" by (rule floor_mono)
  then show ?thesis by (simp add: binary32_exponent_def)
qed

lemma less_powr_exponent:
  assumes "0 < x"
  shows "x < 2 powr real_of_int (binary32_exponent x + 1)"
proof -
  have "log 2 x < real_of_int (\<lfloor>log 2 x\<rfloor> + 1)" by linarith
  also have "\<dots> \<le> real_of_int (binary32_exponent x + 1)"
    using assms by (simp add: binary32_exponent_def)
  finally have "log 2 x < real_of_int (binary32_exponent x + 1)" .
  then have "2 powr log 2 x < 2 powr real_of_int (binary32_exponent x + 1)"
    by (simp only: powr_less_cancel_iff) 
  then show ?thesis using assms by simp
qed

lemma binary32_round_le_next_power:
  assumes "0 < x"
  shows "binary32_round x \<le> 2 powr real_of_int (binary32_exponent x + 1)"
proof -
  let ?u = "binary32_ulp x"
  have u: "0 < ?u" by (rule binary32_ulp_pos)
  have p: "2 powr real_of_int (binary32_exponent x + 1) = 2 ^ 24 * ?u"
  proof -
    have "real_of_int (binary32_exponent x + 1) = 24 + real_of_int (binary32_exponent x - 23)"
      by simp
    then have "2 powr real_of_int (binary32_exponent x + 1) = 2 powr 24 * ?u"
      unfolding binary32_ulp_def by (simp only: powr_add)
    then show ?thesis by simp
  qed
  have "x / ?u \<le> 2 ^ 24"
    using less_powr_exponent [OF assms] u unfolding p by (simp add: field_simps)
  then have "x / ?u \<le> real_of_int 16777216" by simp
  then have "round_ties_even (x / ?u) \<le> round_ties_even (real_of_int 16777216)"
    by (rule rte_mono)
  then have "round_ties_even (x / ?u) \<le> 16777216" by (simp only: rte_of_int)
  then have "real_of_int (round_ties_even (x / ?u)) \<le> 2 ^ 24" by simp
  then have "real_of_int (round_ties_even (x / ?u)) * ?u \<le> 2 ^ 24 * ?u"
    using u by (intro mult_right_mono) simp_all
  then show ?thesis unfolding p binary32_round_def .
qed

lemma binary32_round_ge_power:
  assumes "0 < y" "- 126 < binary32_exponent y"
  shows "2 powr real_of_int (binary32_exponent y) \<le> binary32_round y"
proof -
  let ?u = "binary32_ulp y"
  have u: "0 < ?u" by (rule binary32_ulp_pos)
  have p: "2 powr real_of_int (binary32_exponent y) = 2 ^ 23 * ?u"
  proof -
    have "real_of_int (binary32_exponent y) = 23 + real_of_int (binary32_exponent y - 23)"
      by simp
    then have "2 powr real_of_int (binary32_exponent y) = 2 powr 23 * ?u"
      unfolding binary32_ulp_def by (simp only: powr_add)
    then show ?thesis by simp
  qed
  have e: "binary32_exponent y = \<lfloor>log 2 \<bar>y\<bar>\<rfloor>"
    using assms(2) by (simp add: binary32_exponent_def)
  have "real_of_int \<lfloor>log 2 y\<rfloor> \<le> log 2 y" by simp
  then have "2 powr real_of_int \<lfloor>log 2 y\<rfloor> \<le> 2 powr log 2 y"
    by (simp only: powr_le_cancel_iff)
  then have "2 powr real_of_int (binary32_exponent y) \<le> y"
    using assms(1) unfolding e by simp
  then have "real_of_int 8388608 \<le> y / ?u"
    using u unfolding p by (simp add: field_simps)
  then have "round_ties_even (real_of_int 8388608) \<le> round_ties_even (y / ?u)"
    by (rule rte_mono)
  then have "8388608 \<le> round_ties_even (y / ?u)" by (simp only: rte_of_int)
  then have "2 ^ 23 \<le> real_of_int (round_ties_even (y / ?u))" by simp
  then have "2 ^ 23 * ?u \<le> real_of_int (round_ties_even (y / ?u)) * ?u"
    using u by (intro mult_right_mono) simp_all
  then show ?thesis unfolding p binary32_round_def .
qed

lemma binary32_round_mono_pos:
  assumes "0 < x" "x \<le> y"
  shows "binary32_round x \<le> binary32_round y"
proof (cases "binary32_exponent x = binary32_exponent y")
  case True
  then have u: "binary32_ulp x = binary32_ulp y" by (simp add: binary32_ulp_def)
  have "x / binary32_ulp y \<le> y / binary32_ulp y"
    using assms(2) binary32_ulp_pos [of y] by (simp add: divide_right_mono)
  then have "round_ties_even (x / binary32_ulp y) \<le> round_ties_even (y / binary32_ulp y)"
    by (rule rte_mono)
  then have "real_of_int (round_ties_even (x / binary32_ulp y))
      \<le> real_of_int (round_ties_even (y / binary32_ulp y))" by linarith
  then show ?thesis
    unfolding binary32_round_def u using binary32_ulp_pos [of y]
    by (intro mult_right_mono) simp_all
next
  case False
  with binary32_exponent_mono [OF assms] have lt: "binary32_exponent x + 1 \<le> binary32_exponent y"
    by simp
  have "- 126 \<le> binary32_exponent x" by (simp add: binary32_exponent_def)
  with lt have big: "- 126 < binary32_exponent y" by simp
  have y: "0 < y" using assms by simp
  have "binary32_round x \<le> 2 powr real_of_int (binary32_exponent x + 1)"
    by (rule binary32_round_le_next_power [OF assms(1)])
  also have "\<dots> \<le> 2 powr real_of_int (binary32_exponent y)"
    using lt by simp
  also have "\<dots> \<le> binary32_round y"
    by (rule binary32_round_ge_power [OF y big])
  finally show ?thesis .
qed

lemma binary32_round_mono:
  assumes "x \<le> y"
  shows "binary32_round x \<le> binary32_round y"
proof -
  consider "0 < x" | "y < 0" | "x \<le> 0" "0 \<le> y" by linarith
  then show ?thesis
  proof cases
    case 1
    then show ?thesis using assms by (rule binary32_round_mono_pos)
  next
    case 2
    then have "0 < - y" "- y \<le> - x" using assms by simp_all
    then have "binary32_round (- y) \<le> binary32_round (- x)"
      by (rule binary32_round_mono_pos)
    then show ?thesis by (simp add: binary32_round_uminus)
  next
    case 3
    have "0 \<le> binary32_round (- x)" using 3(1) by (intro binary32_round_nonneg) simp
    then have "binary32_round x \<le> 0" by (simp add: binary32_round_uminus)
    moreover have "0 \<le> binary32_round y" using 3(2) by (rule binary32_round_nonneg)
    ultimately show ?thesis by linarith
  qed
qed


lemma binary32_round_1 [simp]: "binary32_round 1 = 1"
proof -
  have e: "binary32_exponent 1 = 0" by (simp add: binary32_exponent_def)
  have u: "binary32_ulp 1 = 1 / 8388608"
    by (simp add: binary32_ulp_def e powr_minus_divide)
  have "round_ties_even (real_of_int 8388608) = 8388608" by (rule rte_of_int)
  then show ?thesis by (simp add: binary32_round_def u)
qed

text \<open>Just below 1 the binary32 numbers are \<open>1 / 2 ^ 24\<close> apart: what is nearer to 1 rounds to 1.\<close>

lemma binary32_round_below_1:
  assumes "1 - 1 / 2 ^ 26 \<le> y" "y \<le> 1"
  shows "binary32_round y = 1"
proof (cases "y = 1")
  case True
  then show ?thesis by simp
next
  case False
  with assms have y: "1 / 2 \<le> y" "y < 1" by simp_all
  have "- 1 \<le> log 2 y"
    using y by (simp add: le_log_iff powr_minus_divide)
  moreover have "log 2 y < 0" using y by simp
  ultimately have "\<lfloor>log 2 y\<rfloor> = - 1" by linarith
  then have e: "binary32_exponent y = - 1"
    using y by (simp add: binary32_exponent_def)
  have u: "binary32_ulp y = 1 / 16777216"
    by (simp add: binary32_ulp_def e powr_minus_divide)
  let ?t = "y / binary32_ulp y"
  have t: "16777216 - 1 / 4 \<le> ?t" "?t \<le> real_of_int 16777216"
    using assms(1) y unfolding u by simp_all
  have "round_ties_even ?t \<le> round_ties_even (real_of_int 16777216)"
    using t(2) by (rule rte_mono)
  then have up: "round_ties_even ?t \<le> 16777216" by (simp only: rte_of_int)
  have "16777216 - 3 / 4 \<le> real_of_int (round_ties_even ?t)"
    using rte_near [of ?t] t(1) by linarith
  then have "16777216 \<le> round_ties_even ?t" by linarith
  with up have "round_ties_even ?t = 16777216" by simp
  then show ?thesis by (simp add: binary32_round_def u)
qed

lemma binary32_error_binary32_round: "binary32_error binary32_round"
proof -
  have "\<bar>binary32_round x - x\<bar> \<le> \<bar>x\<bar> / 2 ^ 24" if "1 / 2 ^ 126 \<le> \<bar>x\<bar>" for x
    using that by (rule binary32_round_relative)
  then show ?thesis by (simp add: binary32_error_def)
qed

lemma binary32_mono:
  assumes "a \<le> b"
  shows "binary32 a \<le> binary32 b"
proof (cases a)
  case (Fin x)
  note a = this
  show ?thesis
  proof (cases b)
    case (Fin y)
    with a assms have "x \<le> y" by simp
    then have "binary32_round x \<le> binary32_round y" by (rule binary32_round_mono)
    then show ?thesis using a Fin by (auto simp add: FLT_MAX_def)
  qed (use a assms in \<open>auto simp add: FLT_MAX_def\<close>)
qed (use assms in \<open>cases b; auto simp add: FLT_MAX_def\<close>)+


lemma float_exp_mono: "a \<le> b \<Longrightarrow> float_exp a \<le> float_exp b"
  by (cases a; cases b) simp_all

lemma float_uminus_anti: "a \<le> b \<Longrightarrow> - b \<le> - (a :: float)"
  by (cases a; cases b) simp_all

lemma float_one_minus_anti: "a \<le> b \<Longrightarrow> Fin 1 - b \<le> Fin 1 - a"
  by (cases a; cases b) (simp_all add: minus_float_def)

subsection \<open>The smoothing factor\<close>

text \<open>The converted interval is finite, and the larger interval gives the larger number.\<close>

lemma binary32_interval:
  "binary32 (float_of_uint32 i) = Fin (binary32_round (real_of_int (uint i)))"
  "0 \<le> binary32_round (real_of_int (uint i))"
proof -
  let ?x = "real_of_int (uint i)"
  have "0 \<le> uint i" "uint i \<le> 4294967296" using uint_bounded [of i] by simp_all
  then have x: "0 \<le> ?x" "?x \<le> 4294967296"
    by (simp_all only: of_int_0_le_iff of_int_le_numeral_iff)
  show nonneg: "0 \<le> binary32_round ?x" using x(1) by (rule binary32_round_nonneg)
  have "binary32_round ?x \<le> binary32_round 4294967296"
    using x(2) by (rule binary32_round_mono)
  moreover have "\<bar>binary32_round 4294967296 - 4294967296\<bar> \<le> \<bar>4294967296\<bar> / 2 ^ 24"
    by (rule binary32_round_relative) simp
  ultimately have "binary32_round ?x \<le> 4294967552" by simp
  then have "binary32_round ?x \<le> FLT_MAX" by (simp add: FLT_MAX_def)
  then show "binary32 (float_of_uint32 i) = Fin (binary32_round ?x)"
    using nonneg by (simp add: float_of_uint32_def float_of_int_def FLT_MAX_def)
qed

lemma EMA_alpha_mono:
  assumes "0 \<le> c" "i1 \<le> i2"
  shows "EMA_alpha i1 (Fin c) \<le> EMA_alpha i2 (Fin c)"
proof -
  let ?a1 = "binary32_round (real_of_int (uint i1))"
  let ?a2 = "binary32_round (real_of_int (uint i2))"
  have "uint i1 \<le> uint i2" using assms(2) by (simp add: word_le_def)
  then have "real_of_int (uint i1) \<le> real_of_int (uint i2)"
    by (simp only: of_int_le_iff)
  then have "?a1 \<le> ?a2" by (rule binary32_round_mono)
  then have "- ?a2 * c \<le> - ?a1 * c"
    using assms(1) by (simp add: mult_right_mono)
  then have "Fin (- ?a2 * c) \<le> Fin (- ?a1 * c)" by simp
  then have "binary32 (Fin (- ?a2 * c)) \<le> binary32 (Fin (- ?a1 * c))"
    by (rule binary32_mono)
  then have "float_exp (binary32 (Fin (- ?a2 * c))) \<le> float_exp (binary32 (Fin (- ?a1 * c)))"
    by (rule float_exp_mono)
  then have "binary32 (float_exp (binary32 (Fin (- ?a2 * c))))
      \<le> binary32 (float_exp (binary32 (Fin (- ?a1 * c))))"
    by (rule binary32_mono)
  then have "Fin 1 - binary32 (float_exp (binary32 (Fin (- ?a1 * c))))
      \<le> Fin 1 - binary32 (float_exp (binary32 (Fin (- ?a2 * c))))"
    by (rule float_one_minus_anti)
  then have "binary32 (Fin 1 - binary32 (float_exp (binary32 (Fin (- ?a1 * c)))))
      \<le> binary32 (Fin 1 - binary32 (float_exp (binary32 (Fin (- ?a2 * c)))))"
    by (rule binary32_mono)
  then show ?thesis
    by (simp add: EMA_alpha_def binary32_interval)
qed


lemma binary32_round_bounds:
  assumes "1 / 2 ^ 126 \<le> x"
  shows "x * (1 - 1 / 2 ^ 24) \<le> binary32_round x" "binary32_round x \<le> x * (1 + 1 / 2 ^ 24)"
proof -
  have "(0 :: real) < 1 / 2 ^ 126" by simp
  then have pos: "0 < x" using assms by linarith
  then have "1 / 2 ^ 126 \<le> \<bar>x\<bar>" using assms by simp
  then have "\<bar>binary32_round x - x\<bar> \<le> \<bar>x\<bar> / 2 ^ 24" by (rule binary32_round_relative)
  then have "\<bar>binary32_round x - x\<bar> \<le> x / 16777216" using pos by simp
  then have "x - x / 16777216 \<le> binary32_round x" "binary32_round x \<le> x + x / 16777216"
    by linarith+
  then show "x * (1 - 1 / 2 ^ 24) \<le> binary32_round x" "binary32_round x \<le> x * (1 + 1 / 2 ^ 24)"
    by (simp_all add: algebra_simps)
qed

lemma binary32_Fin_small:
  assumes "0 \<le> x" "x \<le> 2"
  shows "binary32 (Fin x) = Fin (binary32_round x)"
proof -
  have "0 \<le> binary32_round x" using assms(1) by (rule binary32_round_nonneg)
  moreover have "binary32_round x \<le> binary32_round 2" using assms(2) by (rule binary32_round_mono)
  moreover have "binary32_round 2 \<le> 2 * (1 + 1 / 2 ^ 24)" by (rule binary32_round_bounds) simp
  ultimately show ?thesis by (simp add: FLT_MAX_def)
qed

lemma exp_minus_29: "exp (- 29 :: real) \<le> 1 / 2 ^ 29"
proof -
  have "(2 :: real) \<le> exp 1" using exp_ge_add_one_self [of "1 :: real"] by simp
  then have "(2 :: real) ^ 29 \<le> exp 1 ^ 29" by (rule power_mono) simp
  also have "exp (1 :: real) ^ 29 = exp 29" using exp_of_nat_mult [of 29 "1 :: real"] by simp
  finally have "(2 :: real) ^ 29 \<le> exp 29" .
  then have "1 / exp (29 :: real) \<le> 1 / 2 ^ 29" by (intro divide_left_mono) simp_all
  then show ?thesis by (simp add: exp_minus inverse_eq_divide)
qed

text \<open>Without a cutoff the smoothing factor is zero at every interval.\<close>

lemma EMA_alpha_zero_cutoff: "EMA_alpha i (Fin 0) = Fin 0"
proof -
  have "binary32 (Fin 0) = Fin 0" by (simp add: FLT_MAX_def)
  moreover have "binary32 (Fin 1) = Fin 1" by (simp add: FLT_MAX_def)
  ultimately show ?thesis
    by (simp add: EMA_alpha_def binary32_interval minus_float_def)
qed

text \<open>Once the interval times the rate constant reaches 29.5, the rounded exponential is below
  half a unit in the last place of 1 and the smoothing factor is 1 exactly.\<close>

lemma EMA_alpha_saturates:
  assumes "59 / 2 \<le> real_of_int (uint i) * c"
  shows "EMA_alpha i (Fin c) = Fin 1"
proof -
  let ?u = "real_of_int (uint i)"
  let ?a = "binary32_round ?u"
  let ?p = "?a * c"
  have one: "binary32 (Fin 1) = Fin 1" by (simp add: FLT_MAX_def)
  have zero: "binary32 (Fin 0) = Fin 0" by (simp add: FLT_MAX_def)
  have "0 \<le> uint i" by simp
  then have u0: "0 \<le> ?u" by (simp only: of_int_0_le_iff)
  have c: "0 < c"
  proof (rule ccontr)
    assume "\<not> 0 < c"
    then have "?u * c \<le> 0" using u0 by (simp add: mult_nonneg_nonpos)
    then show False using assms by linarith
  qed
  have "uint i \<noteq> 0"
  proof
    assume "uint i = 0"
    then have "?u * c = 0" by (simp only: of_int_0 mult_zero_left)
    then show False using assms by linarith
  qed
  then have "1 \<le> uint i" using \<open>0 \<le> uint i\<close> by linarith
  then have u1: "1 \<le> ?u" by (simp only: of_int_1_le_iff)
  have "(1 :: real) / 2 ^ 126 \<le> 1" by simp
  then have "1 / 2 ^ 126 \<le> ?u" using u1 by linarith
  then have "?u * (1 - 1 / 2 ^ 24) \<le> ?a" by (rule binary32_round_bounds)
  then have "?u * (1 - 1 / 2 ^ 24) * c \<le> ?p" using c by (simp add: mult_right_mono)
  moreover have "?u * (1 - 1 / 2 ^ 24) * c = (?u * c) * (1 - 1 / 2 ^ 24)" by simp
  moreover have "59 / 2 * (1 - 1 / 2 ^ 24) \<le> (?u * c) * (1 - 1 / 2 ^ 24)"
    using assms by (intro mult_right_mono) simp_all
  ultimately have p: "59 / 2 * (1 - 1 / 2 ^ 24) \<le> ?p" by linarith
  then have p29: "294 / 10 \<le> ?p" by simp
  have "(1 :: real) / 2 ^ 126 \<le> 1" by simp
  then have "1 / 2 ^ 126 \<le> ?p" using p29 by linarith
  then have "?p * (1 - 1 / 2 ^ 24) \<le> binary32_round ?p" by (rule binary32_round_bounds)
  moreover have "294 / 10 * (1 - 1 / 2 ^ 24) \<le> ?p * (1 - 1 / 2 ^ 24)"
    using p29 by (intro mult_right_mono) simp_all
  ultimately have "294 / 10 * (1 - 1 / 2 ^ 24) \<le> binary32_round ?p" by linarith
  then have q: "29 \<le> binary32_round ?p" by simp
  have arg: "- binary32 (float_of_uint32 i) * Fin c = Fin (- ?p)"
    by (simp add: binary32_interval)
  have neg: "binary32_round (- ?p) = - binary32_round ?p" by (rule binary32_round_uminus)
  have fm: "0 < FLT_MAX" by (simp add: FLT_MAX_def)
  show ?thesis
  proof (cases "FLT_MAX < binary32_round ?p")
    case True
    then have "binary32_round (- ?p) < - FLT_MAX" "\<not> FLT_MAX < binary32_round (- ?p)"
      using True fm by (simp_all only: neg)
    then have "binary32 (Fin (- ?p)) = MInf" by (simp only: binary32.simps if_True if_False)
    then have "EMA_alpha i (Fin c) = binary32 (Fin 1 - binary32 (float_exp MInf))"
      by (simp only: EMA_alpha_def arg)
    also have "\<dots> = binary32 (Fin 1 - Fin 0)" by (simp only: float_exp.simps zero)
    also have "Fin 1 - Fin 0 = Fin 1" by (simp add: minus_float_def)
    finally show ?thesis by (simp only: one)
  next
    case False
    let ?q = "- binary32_round ?p"
    have "\<not> binary32_round (- ?p) < - FLT_MAX" "\<not> FLT_MAX < binary32_round (- ?p)"
      using False fm q by (simp_all only: neg)
    then have bq: "binary32 (Fin (- ?p)) = Fin ?q"
      by (simp only: binary32.simps if_False neg)
    have "exp ?q \<le> exp (- 29)" using q by simp
    then have e: "exp ?q \<le> 1 / 2 ^ 29" using exp_minus_29 by linarith
    have e0: "0 \<le> exp ?q" by simp
    let ?r = "binary32_round (exp ?q)"
    have r0: "0 \<le> ?r" using e0 by (rule binary32_round_nonneg)
    have "?r \<le> binary32_round (1 / 2 ^ 29)" using e by (rule binary32_round_mono)
    moreover have "binary32_round (1 / 2 ^ 29) \<le> 1 / 2 ^ 29 * (1 + 1 / 2 ^ 24)"
      by (rule binary32_round_bounds) simp
    ultimately have r1: "?r \<le> 1 / 2 ^ 28" by simp
    have "exp ?q \<le> 2" using e by simp
    with e0 have be: "binary32 (Fin (exp ?q)) = Fin ?r" by (rule binary32_Fin_small)
    have "1 - 1 / 2 ^ 26 \<le> 1 - ?r" using r1 by simp
    moreover have "1 - ?r \<le> 1" using r0 by simp
    ultimately have s: "binary32_round (1 - ?r) = 1" by (rule binary32_round_below_1)
    have fin: "binary32 (Fin (1 - ?r)) = Fin 1" using s by (simp add: FLT_MAX_def)
    have "EMA_alpha i (Fin c) = binary32 (Fin 1 - binary32 (float_exp (Fin ?q)))"
      by (simp only: EMA_alpha_def arg bq)
    also have "\<dots> = binary32 (Fin 1 - Fin ?r)" by (simp only: float_exp.simps be)
    also have "Fin 1 - Fin ?r = Fin (1 - ?r)" by (simp add: minus_float_def)
    finally show ?thesis by (simp only: fin)
  qed
qed


lemma exp_minus_upper:
  assumes "0 \<le> y" "y \<le> 1 / 2"
  shows "exp (- y) \<le> 1 - 2 * y / (3 :: real)"
proof -
  have "1 + y \<le> exp y" by (rule exp_ge_add_one_self)
  moreover have pos: "0 < 1 + y" using assms(1) by linarith
  ultimately have "1 / exp y \<le> 1 / (1 + y)" by (intro divide_left_mono) simp_all
  then have a: "exp (- y) \<le> 1 / (1 + y)" by (simp add: exp_minus inverse_eq_divide)
  have "0 \<le> y * (1 - 2 * y)" using assms by (intro mult_nonneg_nonneg) simp_all
  then have "1 \<le> (1 - 2 * y / 3) * (1 + y)" by (simp add: algebra_simps)
  then have "1 / (1 + y) \<le> 1 - 2 * y / 3" using pos by (simp add: pos_divide_le_eq)
  with a show ?thesis by linarith
qed

text \<open>In between, the smoothing factor stays close to the product of interval and rate
  constant.\<close>

lemma EMA_alpha_estimate:
  assumes "1 / 1000 \<le> real_of_int (uint i) * c" "real_of_int (uint i) * c \<le> 2 / 5"
  shows "\<exists>a. EMA_alpha i (Fin c) = Fin a
           \<and> real_of_int (uint i) * c * (66 / 100) \<le> a
           \<and> a \<le> real_of_int (uint i) * c * (1001 / 1000)"
proof -
  let ?u = "real_of_int (uint i)"
  let ?x = "?u * c"
  let ?a = "binary32_round ?u"
  let ?p = "?a * c"
  let ?P = "binary32_round ?p"
  let ?E = "exp (- ?P)"
  let ?R = "binary32_round ?E"
  have tiny: "(1 :: real) / 2 ^ 126 \<le> 1 / 10000"
    by (simp add: field_simps)
  have "0 \<le> uint i" by simp
  then have u0: "0 \<le> ?u" by (simp only: of_int_0_le_iff)
  have c: "0 < c"
  proof (rule ccontr)
    assume "\<not> 0 < c"
    then have "?u * c \<le> 0" using u0 by (simp add: mult_nonneg_nonpos)
    then show False using assms by linarith
  qed
  have "uint i \<noteq> 0"
  proof
    assume "uint i = 0"
    then have "?u * c = 0" by (simp only: of_int_0 mult_zero_left)
    then show False using assms by linarith
  qed
  then have "1 \<le> uint i" using \<open>0 \<le> uint i\<close> by linarith
  then have u1: "1 \<le> ?u" by (simp only: of_int_1_le_iff)
  have "1 / 2 ^ 126 \<le> ?u" using u1 tiny by linarith
  then have "?u * (1 - 1 / 2 ^ 24) \<le> ?a" "?a \<le> ?u * (1 + 1 / 2 ^ 24)"
    by (rule binary32_round_bounds)+
  then have "?u * (1 - 1 / 2 ^ 24) * c \<le> ?p" "?p \<le> ?u * (1 + 1 / 2 ^ 24) * c"
    using c by (simp_all add: mult_right_mono)
  moreover have "?u * (1 - 1 / 2 ^ 24) * c = ?x * (16777215 / 16777216)"
    "?u * (1 + 1 / 2 ^ 24) * c = ?x * (16777217 / 16777216)"
    by simp_all
  ultimately have p: "?x * (16777215 / 16777216) \<le> ?p" "?p \<le> ?x * (16777217 / 16777216)"
    by simp_all
  have "1 / 2 ^ 126 \<le> ?p" using p(1) assms(1) tiny by linarith
  then have "?p * (1 - 1 / 2 ^ 24) \<le> ?P" "?P \<le> ?p * (1 + 1 / 2 ^ 24)"
    by (rule binary32_round_bounds)+
  then have "?p * (16777215 / 16777216) \<le> ?P" "?P \<le> ?p * (16777217 / 16777216)"
    by simp_all
  then have P: "?x * (9999 / 10000) \<le> ?P" "?P \<le> ?x * (10001 / 10000)"
    using p assms by linarith+
  then have P0: "0 \<le> ?P" "?P \<le> 1 / 2" using assms by linarith+
  have fm: "1 \<le> FLT_MAX" by (simp add: FLT_MAX_def)
  have neg: "binary32_round (- ?p) = - ?P" by (rule binary32_round_uminus)
  have arg: "- binary32 (float_of_uint32 i) * Fin c = Fin (- ?p)"
    by (simp add: binary32_interval)
  have "\<not> binary32_round (- ?p) < - FLT_MAX" "\<not> FLT_MAX < binary32_round (- ?p)"
    using P0 fm by (simp_all only: neg)
  then have bq: "binary32 (Fin (- ?p)) = Fin (- ?P)"
    by (simp only: binary32.simps if_False neg)
  have "1 + (- ?P) \<le> ?E" by (rule exp_ge_add_one_self)
  moreover have "?E \<le> 1 - 2 * ?P / 3" using P0 by (rule exp_minus_upper)
  ultimately have E: "1 - ?P \<le> ?E" "?E \<le> 1 - 2 * ?P / 3" by simp_all
  then have E0: "1 / 2 \<le> ?E" "?E \<le> 1" using P0 by linarith+
  have "1 / 2 ^ 126 \<le> ?E" using E0 tiny by linarith
  then have "?E * (1 - 1 / 2 ^ 24) \<le> ?R" "?R \<le> ?E * (1 + 1 / 2 ^ 24)"
    by (rule binary32_round_bounds)+
  then have "?E * (16777215 / 16777216) \<le> ?R" "?R \<le> ?E * (16777217 / 16777216)"
    by simp_all
  then have R: "?E - 1 / 10000000 \<le> ?R" "?R \<le> ?E + 1 / 10000000"
    using E0 by linarith+
  have "0 \<le> ?E" "?E \<le> 2" using E0 by linarith+
  then have be: "binary32 (Fin ?E) = Fin ?R" by (rule binary32_Fin_small)
  define D where "D = 1 - ?R"
  have D: "2 * ?P / 3 - 1 / 10000000 \<le> D" "D \<le> ?P + 1 / 10000000"
    using R E by (simp_all only: D_def)
  then have D0: "1 / 10000 \<le> D" "D \<le> 2" using P assms by linarith+
  then have "1 / 2 ^ 126 \<le> D" using tiny by linarith
  then have "D * (1 - 1 / 2 ^ 24) \<le> binary32_round D"
    "binary32_round D \<le> D * (1 + 1 / 2 ^ 24)"
    by (rule binary32_round_bounds)+
  then have "D * (16777215 / 16777216) \<le> binary32_round D"
    "binary32_round D \<le> D * (16777217 / 16777216)"
    by simp_all
  then have "D - 2 / 10000000 \<le> binary32_round D" "binary32_round D \<le> D + 2 / 10000000"
    using D0 by linarith+
  then have "2 * ?P / 3 - 3 / 10000000 \<le> binary32_round D"
    "binary32_round D \<le> ?P + 3 / 10000000"
    using D by linarith+
  then have A: "?x * (66 / 100) \<le> binary32_round D" "binary32_round D \<le> ?x * (1001 / 1000)"
    using P assms by linarith+
  have "0 \<le> D" using D0 by linarith
  then have bd: "binary32 (Fin D) = Fin (binary32_round D)"
    using D0(2) by (rule binary32_Fin_small)
  have "EMA_alpha i (Fin c) = binary32 (Fin 1 - binary32 (float_exp (Fin (- ?P))))"
    by (simp only: EMA_alpha_def arg bq)
  also have "\<dots> = binary32 (Fin 1 - Fin ?R)" by (simp only: float_exp.simps be)
  also have "Fin 1 - Fin ?R = Fin D" by (simp add: minus_float_def D_def)
  finally have "EMA_alpha i (Fin c) = Fin (binary32_round D)" by (simp only: bd)
  with A show ?thesis by blast
qed

lemma EMA_alpha_doubling_strict:
  assumes "1 / 1000 \<le> real_of_int (uint i1) * c" "real_of_int (uint i1) * c \<le> 1 / 5"
    and "uint i2 = 2 * uint i1"
  shows "EMA_alpha i1 (Fin c) < EMA_alpha i2 (Fin c)"
proof -
  let ?x = "real_of_int (uint i1) * c"
  have "real_of_int (uint i2) = 2 * real_of_int (uint i1)"
    by (simp only: assms(3) of_int_mult of_int_numeral)
  then have x2: "real_of_int (uint i2) * c = 2 * ?x" by (simp only: mult.assoc)
  have "?x \<le> 2 / 5" using assms(2) by linarith
  with assms(1) obtain a1 where a1: "EMA_alpha i1 (Fin c) = Fin a1" "a1 \<le> ?x * (1001 / 1000)"
    using EMA_alpha_estimate [of i1 c] by blast
  have "1 / 1000 \<le> real_of_int (uint i2) * c" "real_of_int (uint i2) * c \<le> 2 / 5"
    using assms(1,2) by (simp_all only: x2)
  then obtain a2 where a2: "EMA_alpha i2 (Fin c) = Fin a2"
    "real_of_int (uint i2) * c * (66 / 100) \<le> a2"
    using EMA_alpha_estimate [of i2 c] by blast
  have "2 * ?x * (66 / 100) \<le> a2" using a2(2) by (simp only: x2)
  then have "a1 < a2" using a1(2) assms(1) by linarith
  then show ?thesis by (simp only: a1 a2 less_float.simps)
qed


text \<open>With a negative rate constant the exponential grows with the interval, overflows, and
  the smoothing factor is minus infinity.\<close>

lemma exp_198: "(2 :: real) ^ 198 \<le> exp 198"
proof -
  have "(2 :: real) \<le> exp 1" using exp_ge_add_one_self [of "1 :: real"] by simp
  then have "(2 :: real) ^ 198 \<le> exp 1 ^ 198" by (rule power_mono) simp
  also have "exp (1 :: real) ^ 198 = exp 198" using exp_of_nat_mult [of 198 "1 :: real"] by simp
  finally show ?thesis .
qed

lemma EMA_alpha_negative_overflow:
  assumes "real_of_int (uint i) * c \<le> - 200"
  shows "EMA_alpha i (Fin c) = MInf"
proof -
  let ?u = "real_of_int (uint i)"
  let ?a = "binary32_round ?u"
  let ?p = "?a * (- c)"
  have tiny: "(1 :: real) / 2 ^ 126 \<le> 1" by simp
  have "0 \<le> uint i" by simp
  then have u0: "0 \<le> ?u" by (simp only: of_int_0_le_iff)
  have c: "c < 0"
  proof (rule ccontr)
    assume "\<not> c < 0"
    then have "0 \<le> ?u * c" using u0 by simp
    then show False using assms by linarith
  qed
  have "uint i \<noteq> 0"
  proof
    assume "uint i = 0"
    then have "?u * c = 0" by (simp only: of_int_0 mult_zero_left)
    then show False using assms by linarith
  qed
  then have "1 \<le> uint i" using \<open>0 \<le> uint i\<close> by linarith
  then have u1: "1 \<le> ?u" by (simp only: of_int_1_le_iff)
  have "1 / 2 ^ 126 \<le> ?u" using u1 tiny by linarith
  then have "?u * (1 - 1 / 2 ^ 24) \<le> ?a" by (rule binary32_round_bounds)
  then have "?u * (1 - 1 / 2 ^ 24) * (- c) \<le> ?p" using c by (intro mult_right_mono) simp_all
  moreover have "?u * (1 - 1 / 2 ^ 24) * (- c) = (- (?u * c)) * (16777215 / 16777216)" by simp
  ultimately have p: "199 \<le> ?p" using assms by linarith
  then have "1 / 2 ^ 126 \<le> ?p" using tiny by linarith
  then have "?p * (1 - 1 / 2 ^ 24) \<le> binary32_round ?p" by (rule binary32_round_bounds)
  then have "?p * (16777215 / 16777216) \<le> binary32_round ?p" by simp
  then have P: "198 \<le> binary32_round ?p" using p by linarith
  have arg: "- binary32 (float_of_uint32 i) * Fin c = Fin ?p"
    by (simp add: binary32_interval)
  have fm: "0 < FLT_MAX" by (simp add: FLT_MAX_def)
  have big: "binary32 (Fin y) = PInf" if "2 ^ 198 \<le> y" for y
  proof -
    have "binary32_round (2 ^ 198) \<le> binary32_round y" using that by (rule binary32_round_mono)
    moreover have "2 ^ 198 * (1 - 1 / 2 ^ 24) \<le> binary32_round (2 ^ 198)"
      by (rule binary32_round_bounds) simp
    ultimately have "2 ^ 197 \<le> binary32_round y" by simp
    then have "FLT_MAX < binary32_round y" by (simp add: FLT_MAX_def)
    then show ?thesis by simp
  qed
  have "float_exp (binary32 (Fin ?p)) = PInf \<or> (\<exists>y. 2 ^ 198 \<le> y \<and> float_exp (binary32 (Fin ?p)) = Fin y)"
  proof (cases "FLT_MAX < binary32_round ?p")
    case True
    then show ?thesis by simp
  next
    case False
    then have "binary32 (Fin ?p) = Fin (binary32_round ?p)" using P fm by simp
    moreover have "exp 198 \<le> exp (binary32_round ?p)" using P by simp
    then have "2 ^ 198 \<le> exp (binary32_round ?p)" using exp_198 by linarith
    ultimately show ?thesis by simp
  qed
  then have "binary32 (float_exp (binary32 (Fin ?p))) = PInf"
  proof
    assume "float_exp (binary32 (Fin ?p)) = PInf"
    then show ?thesis by (simp only: binary32.simps)
  next
    assume "\<exists>y. 2 ^ 198 \<le> y \<and> float_exp (binary32 (Fin ?p)) = Fin y"
    then obtain y where "2 ^ 198 \<le> y" "float_exp (binary32 (Fin ?p)) = Fin y" by blast
    then show ?thesis by (simp only: big)
  qed
  then have "EMA_alpha i (Fin c) = binary32 (Fin 1 - PInf)"
    by (simp only: EMA_alpha_def arg)
  also have "Fin 1 - PInf = MInf" by (simp add: minus_float_def)
  finally show ?thesis by simp
qed

lemma not_less_MInf: "\<not> x < MInf"
  by (cases x) simp_all


lemma R_step_LP_freq: "EMA_LP_freq (fst (snd (R_step c r w))) = EMA_LP_freq r"
  by (cases c) (auto simp add: poll_EMA_def R_set_SPI_clock_def Let_def split_def)

lemma R_calls_LP_freq: "EMA_LP_freq (fst (snd (R_calls cs r w))) = EMA_LP_freq r"
proof (induction cs arbitrary: r w)
  case Nil
  show ?case by simp
next
  case (Cons c cs)
  obtain x r' w' where step: "R_step c r w = (x, r', w')"
    by (cases "R_step c r w")
  have "EMA_LP_freq r' = EMA_LP_freq r"
    using R_step_LP_freq [of c r w] by (simp add: step)
  with Cons.IH [of r' w'] show ?case
    by (simp add: step split_def Let_def)
qed

text \<open>
  C1, as stated, fails: the smoothing factor is not strictly increasing in the obtained
  interval, and at twice the interval it need not be larger. The constructor accepts a
  cut-off frequency of 0 Hz, and then the factor is 0 at every interval. With the cut-off
  frequency of 1000 Hz, the factor is 1 both at 30000 and at 60000 microseconds: the
  exponential is below half a unit in the last place of 1, and the difference rounds to 1.
  With a negative cut-off frequency the factor at 200 microseconds is minus infinity, below
  which there is nothing.
\<close>

theorem EMA_alpha_not_larger_counterexample:
  "EMA_alpha 2000 (EMA_LP_freq (new_R_Click_EMA 5 example_calib 2000 (Fin 0) 0 0)) = Fin 0
   \<and> EMA_alpha 4000 (EMA_LP_freq (new_R_Click_EMA 5 example_calib 2000 (Fin 0) 0 0)) = Fin 0
   \<and> \<not> EMA_alpha 2000 (EMA_LP_freq (new_R_Click_EMA 5 example_calib 2000 (Fin 0) 0 0))
       < EMA_alpha 4000 (EMA_LP_freq (new_R_Click_EMA 5 example_calib 2000 (Fin 0) 0 0))
   \<and> EMA_alpha 30000 (EMA_LP_freq (new_R_Click_EMA 5 example_calib 100 (Fin 1000) 0 0)) = Fin 1
   \<and> EMA_alpha 60000 (EMA_LP_freq (new_R_Click_EMA 5 example_calib 100 (Fin 1000) 0 0)) = Fin 1
   \<and> \<not> EMA_alpha 30000 (EMA_LP_freq (new_R_Click_EMA 5 example_calib 100 (Fin 1000) 0 0))
       < EMA_alpha 60000 (EMA_LP_freq (new_R_Click_EMA 5 example_calib 100 (Fin 1000) 0 0))
   \<and> EMA_alpha 200 (EMA_LP_freq (new_R_Click_EMA 5 example_calib 100 (Fin (- 1000000)) 0 0)) = MInf
   \<and> \<not> EMA_alpha 100 (EMA_LP_freq (new_R_Click_EMA 5 example_calib 100 (Fin (- 1000000)) 0 0))
       < EMA_alpha 200 (EMA_LP_freq (new_R_Click_EMA 5 example_calib 100 (Fin (- 1000000)) 0 0))"
proof -
  have c0: "EMA_LP_freq (new_R_Click_EMA 5 example_calib 2000 (Fin 0) 0 0) = Fin 0"
    by (simp add: new_R_Click_EMA_def)
  have c1: "EMA_LP_freq (new_R_Click_EMA 5 example_calib 100 (Fin 1000) 0 0) = Fin (1 / 1000)"
    by (simp add: new_R_Click_EMA_def)
  have c2: "EMA_LP_freq (new_R_Click_EMA 5 example_calib 100 (Fin (- 1000000)) 0 0) = Fin (- 1)"
    by (simp add: new_R_Click_EMA_def)
  have a1: "EMA_alpha 30000 (Fin (1 / 1000)) = Fin 1"
    by (rule EMA_alpha_saturates) simp
  have a2: "EMA_alpha 60000 (Fin (1 / 1000)) = Fin 1"
    by (rule EMA_alpha_saturates) simp
  have a3: "EMA_alpha 200 (Fin (- 1)) = MInf"
    by (rule EMA_alpha_negative_overflow) simp
  show ?thesis
    by (simp only: c0 c1 c2 EMA_alpha_zero_cutoff a1 a2 a3 not_less_MInf less_float.simps
        less_irrefl not_False_eq_True simp_thms)
qed

text \<open>
  C1, amended. The rate constant is fixed at construction, as the cut-off frequency in Hz
  times \<open>1 / 10 ^ 6\<close>, and no method changes it. A call of
  \<^verbatim>\<open>poll_EMA\<close> that takes a sample stores the elapsed interval
  \<open>now - EMA_tick\<close> as the obtained interval, sets \<open>EMA_tick\<close> to
  \<open>now\<close>, and blends with the smoothing factor computed from that interval; a call
  that takes no sample changes nothing. So at the second of two successive samples the
  obtained interval is the time between the two. The smoothing factor is
  \<open>1 - exp (- obtained interval * rate constant)\<close> with a rounding to single precision
  after the conversion of the interval, the product, the exponential and the difference.
  For a finite rate constant that is not negative, the factor does not decrease when the
  obtained interval grows, so at twice the interval it is at least as large. It is larger
  when the smaller interval times the rate constant lies between 0.001 and 0.2; it is 1 at
  both intervals once that product has reached 29.5, and it is 0 at every interval when the
  rate constant is 0.
\<close>

theorem EMA_alpha_recomputed:
  "EMA_LP_freq (new_R_Click_EMA pin cal interval LP_freq micros0 uninit) = LP_freq * Fin (1 / 10 ^ 6)
   \<and> EMA_LP_freq (fst (snd (R_calls cs r w))) = EMA_LP_freq r
   \<and> (EMA_interval r \<le> now - EMA_tick r \<longrightarrow>
        EMA_obtained_interval (fst (snd (poll_EMA now r w))) = now - EMA_tick r
        \<and> EMA_tick (fst (snd (poll_EMA now r w))) = now
        \<and> EMA_bitval (fst (snd (poll_EMA now r w))) =
            (if EMA_at_startup r then float_of_uint16 (fst (read_bitval r w))
             else EMA_bitval r + EMA_alpha (now - EMA_tick r) (EMA_LP_freq r) *
                    (float_of_uint16 (fst (read_bitval r w)) - EMA_bitval r)))
   \<and> (\<not> EMA_interval r \<le> now - EMA_tick r \<longrightarrow> fst (snd (poll_EMA now r w)) = r)
   \<and> (EMA_interval r \<le> now - EMA_tick r \<and> EMA_interval r \<le> now2 - now \<longrightarrow>
        EMA_obtained_interval (fst (snd (poll_EMA now2 (fst (snd (poll_EMA now r w))) w2)))
          = now2 - now
        \<and> EMA_bitval (fst (snd (poll_EMA now2 (fst (snd (poll_EMA now r w))) w2))) =
            EMA_bitval (fst (snd (poll_EMA now r w)))
            + EMA_alpha (now2 - now) (EMA_LP_freq r) *
                (float_of_uint16 (fst (read_bitval r w2)) - EMA_bitval (fst (snd (poll_EMA now r w)))))
   \<and> EMA_alpha i LP =
        binary32 (Fin 1 - binary32 (float_exp (binary32 (- binary32 (float_of_uint32 i) * LP))))
   \<and> (0 \<le> c \<and> i1 \<le> i2 \<longrightarrow> EMA_alpha i1 (Fin c) \<le> EMA_alpha i2 (Fin c))
   \<and> (0 \<le> f \<and> uint i2 = 2 * uint i1 \<longrightarrow>
        EMA_alpha i1 (EMA_LP_freq (new_R_Click_EMA pin cal interval (Fin f) micros0 uninit))
        \<le> EMA_alpha i2 (EMA_LP_freq (new_R_Click_EMA pin cal interval (Fin f) micros0 uninit)))
   \<and> (1 / 1000 \<le> real_of_int (uint i1) * c \<and> real_of_int (uint i1) * c \<le> 1 / 5
        \<and> uint i2 = 2 * uint i1 \<longrightarrow> EMA_alpha i1 (Fin c) < EMA_alpha i2 (Fin c))
   \<and> (59 / 2 \<le> real_of_int (uint i) * c \<longrightarrow> EMA_alpha i (Fin c) = Fin 1)
   \<and> EMA_alpha i (Fin 0) = Fin 0"
proof (intro conjI impI)
  show "EMA_LP_freq (new_R_Click_EMA pin cal interval LP_freq micros0 uninit) = LP_freq * Fin (1 / 10 ^ 6)"
    by (simp add: new_R_Click_EMA_def)
  show "EMA_LP_freq (fst (snd (R_calls cs r w))) = EMA_LP_freq r"
    by (rule R_calls_LP_freq)
  show "EMA_alpha i LP =
        binary32 (Fin 1 - binary32 (float_exp (binary32 (- binary32 (float_of_uint32 i) * LP))))"
    by (simp only: EMA_alpha_def)
  show "EMA_alpha i (Fin 0) = Fin 0"
    by (rule EMA_alpha_zero_cutoff)
next
  assume due: "EMA_interval r \<le> now - EMA_tick r"
  show "EMA_obtained_interval (fst (snd (poll_EMA now r w))) = now - EMA_tick r"
    by (simp add: poll_EMA_due [OF due])
  show "EMA_tick (fst (snd (poll_EMA now r w))) = now"
    by (simp add: poll_EMA_due [OF due])
  show "EMA_bitval (fst (snd (poll_EMA now r w))) =
            (if EMA_at_startup r then float_of_uint16 (fst (read_bitval r w))
             else EMA_bitval r + EMA_alpha (now - EMA_tick r) (EMA_LP_freq r) *
                    (float_of_uint16 (fst (read_bitval r w)) - EMA_bitval r))"
    by (simp add: poll_EMA_due [OF due])
next
  assume "\<not> EMA_interval r \<le> now - EMA_tick r"
  then show "fst (snd (poll_EMA now r w)) = r"
    by (simp add: poll_EMA_def)
next
  assume a: "EMA_interval r \<le> now - EMA_tick r \<and> EMA_interval r \<le> now2 - now"
  let ?r1 = "fst (snd (poll_EMA now r w))"
  have due: "EMA_interval r \<le> now - EMA_tick r" using a by simp
  have r1: "EMA_interval ?r1 = EMA_interval r" "EMA_tick ?r1 = now" "\<not> EMA_at_startup ?r1"
    "EMA_LP_freq ?r1 = EMA_LP_freq r"
    by (simp_all add: poll_EMA_due [OF due])
  have rb: "fst (read_bitval ?r1 w2) = fst (read_bitval r w2)"
    by (simp add: read_bitval_eq)
  have due2: "EMA_interval ?r1 \<le> now2 - EMA_tick ?r1" using a by (simp only: r1)
  show "EMA_obtained_interval (fst (snd (poll_EMA now2 ?r1 w2))) = now2 - now"
    by (simp add: poll_EMA_due [OF due2] r1)
  show "EMA_bitval (fst (snd (poll_EMA now2 ?r1 w2))) =
            EMA_bitval ?r1 + EMA_alpha (now2 - now) (EMA_LP_freq r) *
                (float_of_uint16 (fst (read_bitval r w2)) - EMA_bitval ?r1)"
    by (simp add: poll_EMA_due [OF due2] r1 rb)
next
  assume "0 \<le> c \<and> i1 \<le> i2"
  then show "EMA_alpha i1 (Fin c) \<le> EMA_alpha i2 (Fin c)"
    by (simp add: EMA_alpha_mono)
next
  assume a: "0 \<le> f \<and> uint i2 = 2 * uint i1"
  have "EMA_LP_freq (new_R_Click_EMA pin cal interval (Fin f) micros0 uninit) = Fin (f * (1 / 10 ^ 6))"
    by (simp add: new_R_Click_EMA_def)
  moreover have "0 \<le> f * (1 / 10 ^ 6)" using a by simp
  moreover have "uint i1 \<le> uint i2" using a by simp
  then have "i1 \<le> i2" by (simp add: word_le_def)
  ultimately show "EMA_alpha i1 (EMA_LP_freq (new_R_Click_EMA pin cal interval (Fin f) micros0 uninit))
        \<le> EMA_alpha i2 (EMA_LP_freq (new_R_Click_EMA pin cal interval (Fin f) micros0 uninit))"
    by (simp only: EMA_alpha_mono)
next
  assume "1 / 1000 \<le> real_of_int (uint i1) * c \<and> real_of_int (uint i1) * c \<le> 1 / 5
        \<and> uint i2 = 2 * uint i1"
  then show "EMA_alpha i1 (Fin c) < EMA_alpha i2 (Fin c)"
    by (intro EMA_alpha_doubling_strict) simp_all
next
  assume "59 / 2 \<le> real_of_int (uint i) * c"
  then show "EMA_alpha i (Fin c) = Fin 1"
    by (rule EMA_alpha_saturates)
qed


theorem EMA_alpha_recomputed_witness:
  "EMA_interval example_R_Click \<le> 2000 - EMA_tick example_R_Click
   \<and> EMA_obtained_interval (fst (snd (poll_EMA 2000 example_R_Click example_world))) = 2000
   \<and> EMA_tick (fst (snd (poll_EMA 2000 example_R_Click example_world))) = 2000
   \<and> \<not> EMA_interval example_R_Click \<le> 1000 - EMA_tick example_R_Click
   \<and> fst (snd (poll_EMA 1000 example_R_Click example_world)) = example_R_Click
   \<and> EMA_interval example_R_Click \<le> 6000 - 2000
   \<and> EMA_obtained_interval (fst (snd (poll_EMA 6000
         (fst (snd (poll_EMA 2000 example_R_Click example_world))) example_world))) = 4000
   \<and> (0 :: real) \<le> 10 \<and> uint (4000 :: uint32_t) = 2 * uint (2000 :: uint32_t)
   \<and> EMA_alpha 2000 (EMA_LP_freq example_R_Click) \<le> EMA_alpha 4000 (EMA_LP_freq example_R_Click)
   \<and> EMA_alpha 2000 (Fin (1 / 10 ^ 5)) < EMA_alpha 4000 (Fin (1 / 10 ^ 5))
   \<and> EMA_alpha 2000 (EMA_LP_freq example_R_Click) < EMA_alpha 4000 (EMA_LP_freq example_R_Click)
   \<and> (0 :: real) \<le> 1 / 10 ^ 5 \<and> (2000 :: uint32_t) \<le> 2001
   \<and> EMA_alpha 2000 (Fin (1 / 10 ^ 5)) \<le> EMA_alpha 2001 (Fin (1 / 10 ^ 5))
   \<and> 1 / 1000 \<le> real_of_int (uint (100 :: uint32_t)) * (1 / 1000)
   \<and> real_of_int (uint (100 :: uint32_t)) * (1 / 1000) \<le> 1 / 5
   \<and> uint (200 :: uint32_t) = 2 * uint (100 :: uint32_t)
   \<and> EMA_alpha 100 (Fin (1 / 1000)) < EMA_alpha 200 (Fin (1 / 1000))
   \<and> 59 / 2 \<le> real_of_int (uint (30000 :: uint32_t)) * (1 / 1000)
   \<and> EMA_alpha 30000 (Fin (1 / 1000)) = Fin 1"
proof -
  have ex: "EMA_interval example_R_Click = 2000" "EMA_tick example_R_Click = 0"
    by (simp_all add: example_R_Click_def new_R_Click_EMA_def new_R_Click_def)
  note t = EMA_alpha_recomputed [where pin = 5 and cal = example_calib and interval = 2000
      and ?micros0.0 = 0 and uninit = 0 and r = example_R_Click and w = example_world
      and now = 2000 and ?now2.0 = 6000 and ?w2.0 = example_world
      and ?i1.0 = 2000 and ?i2.0 = 4000 and f = 10 and c = "1 / 10 ^ 5"]
  note u = EMA_alpha_recomputed [where r = example_R_Click and w = example_world and now = 1000
      and c = "1 / 10 ^ 5" and ?i1.0 = 2000 and ?i2.0 = 2001]
  note v = EMA_alpha_recomputed [where c = "1 / 1000" and ?i1.0 = 100 and ?i2.0 = 200
      and i = 30000]
  have "EMA_obtained_interval (fst (snd (poll_EMA 2000 example_R_Click example_world))) = 2000"
    "EMA_tick (fst (snd (poll_EMA 2000 example_R_Click example_world))) = 2000"
    using t [THEN conjunct2, THEN conjunct2, THEN conjunct1] by (simp_all add: ex)
  moreover have "EMA_obtained_interval (fst (snd (poll_EMA 6000
         (fst (snd (poll_EMA 2000 example_R_Click example_world))) example_world))) = 4000"
    using t [THEN conjunct2, THEN conjunct2, THEN conjunct2, THEN conjunct2, THEN conjunct1] by (simp add: ex)
  moreover have "EMA_alpha 2000 (EMA_LP_freq example_R_Click)
      \<le> EMA_alpha 4000 (EMA_LP_freq example_R_Click)"
    using t [THEN conjunct2, THEN conjunct2, THEN conjunct2, THEN conjunct2, THEN conjunct2, THEN conjunct2, THEN conjunct2, THEN conjunct1] by (simp add: example_R_Click_def)
  moreover have "EMA_alpha 2000 (Fin (1 / 10 ^ 5)) < EMA_alpha 4000 (Fin (1 / 10 ^ 5))"
    using t [THEN conjunct2, THEN conjunct2, THEN conjunct2, THEN conjunct2, THEN conjunct2, THEN conjunct2, THEN conjunct2, THEN conjunct2, THEN conjunct1] by simp
  moreover have "EMA_alpha 2000 (EMA_LP_freq example_R_Click)
      < EMA_alpha 4000 (EMA_LP_freq example_R_Click)"
    using t [THEN conjunct2, THEN conjunct2, THEN conjunct2, THEN conjunct2, THEN conjunct2, THEN conjunct2, THEN conjunct2, THEN conjunct2, THEN conjunct1] by (simp add: example_R_Click_def new_R_Click_EMA_def)
  moreover have "fst (snd (poll_EMA 1000 example_R_Click example_world)) = example_R_Click"
    using u [THEN conjunct2, THEN conjunct2, THEN conjunct2, THEN conjunct1] by (simp add: ex)
  moreover have "EMA_alpha 2000 (Fin (1 / 10 ^ 5)) \<le> EMA_alpha 2001 (Fin (1 / 10 ^ 5))"
    using u [THEN conjunct2, THEN conjunct2, THEN conjunct2, THEN conjunct2, THEN conjunct2, THEN conjunct2, THEN conjunct1] by simp
  moreover have "EMA_alpha 100 (Fin (1 / 1000)) < EMA_alpha 200 (Fin (1 / 1000))"
    using v [THEN conjunct2, THEN conjunct2, THEN conjunct2, THEN conjunct2, THEN conjunct2, THEN conjunct2, THEN conjunct2, THEN conjunct2, THEN conjunct1] by simp
  moreover have "EMA_alpha 30000 (Fin (1 / 1000)) = Fin 1"
    using v [THEN conjunct2, THEN conjunct2, THEN conjunct2, THEN conjunct2, THEN conjunct2, THEN conjunct2, THEN conjunct2, THEN conjunct2, THEN conjunct2, THEN conjunct1] by simp
  ultimately show ?thesis
    by (simp add: ex)
qed

subsection \<open>The round trip through both maps\<close>

lemma round_half_away_near:
  assumes "0 \<le> x"
  shows "\<bar>real_of_int (round_half_away x) - x\<bar> \<le> 1 / 2"
proof -
  have "real_of_int \<lfloor>x + 1 / 2\<rfloor> \<le> x + 1 / 2" "x + 1 / 2 < real_of_int \<lfloor>x + 1 / 2\<rfloor> + 1"
    by linarith+
  then have "\<bar>real_of_int \<lfloor>x + 1 / 2\<rfloor> - x\<bar> \<le> 1 / 2"
    by linarith
  then show ?thesis
    using assms by (simp only: round_half_away_def if_True)
qed

lemma round_half_away_of_int [simp]: "round_half_away (real_of_int k) = k"
proof (cases "0 \<le> k")
  case True
  have "\<lfloor>real_of_int k + 1 / 2\<rfloor> = k" by linarith
  then show ?thesis using True by (simp add: round_half_away_def)
next
  case False
  have "\<lceil>real_of_int k - 1 / 2\<rceil> = k" by linarith
  then show ?thesis using False by (simp add: round_half_away_def)
qed

lemma round_half_away_mono: "0 \<le> x \<Longrightarrow> x \<le> y \<Longrightarrow> round_half_away x \<le> round_half_away y"
  unfolding round_half_away_def by (simp add: floor_mono)

lemma linear_inverse:
  fixes x b d m m1 :: real
  assumes "d \<noteq> 0" "m \<noteq> 0"
  shows "(m1 + (x - b) / d * m - m1) / m * d + b = x"
proof -
  have "(m1 + (x - b) / d * m - m1) / m = (x - b) / d"
    using assms(2) by simp
  then show ?thesis
    using assms(1) by simp
qed

lemma round_trip_value:
  assumes "p1_mA cal = Fin m1" "p2_mA cal = Fin m2" "m1 < m2" "p1_bitval cal < p2_bitval cal"
    and "R_CLICK_FAULT_mA < linear_mA cal (Fin x)"
  shows "mA2bitval cal (bitval2mA cal (Fin x)) = word_of_int (round_half_away x)"
proof -
  let ?b1 = "real_of_int (uint (p1_bitval cal))"
  let ?d = "real_of_int (uint (p2_bitval cal) - uint (p1_bitval cal))"
  have "uint (p1_bitval cal) < uint (p2_bitval cal)"
    using assms(4) by (simp add: word_less_def)
  then have d: "?d \<noteq> 0" by linarith
  have m: "m2 - m1 \<noteq> 0" using assms(3) by simp
  have lin: "linear_mA cal (Fin x) = Fin (m1 + (x - ?b1) / ?d * (m2 - m1))"
    using d by (simp add: linear_mA_def assms(1,2) float_of_uint16_def float_of_int_def
        minus_float_def)
  then have mA: "bitval2mA cal (Fin x) = Fin (m1 + (x - ?b1) / ?d * (m2 - m1))"
    using assms(5) by (simp add: bitval2mA_def classify_def)
  have "(m1 + (x - ?b1) / ?d * (m2 - m1) - m1) / (m2 - m1) * ?d + ?b1 = x"
    using d m by (rule linear_inverse)
  then show ?thesis
    using m unfolding mA
    by (simp add: mA2bitval_def assms(1,2) float_of_uint16_def float_of_int_def minus_float_def)
qed


lemma round_trip_half_bit:
  assumes "p1_mA cal = Fin m1" "p2_mA cal = Fin m2" "m1 < m2" "p1_bitval cal < p2_bitval cal"
    and "real_of_int (uint (p1_bitval cal)) \<le> x" "x \<le> real_of_int (uint (p2_bitval cal))"
    and "R_CLICK_FAULT_mA < linear_mA cal (Fin x)"
  shows "\<bar>real_of_int (uint (mA2bitval cal (bitval2mA cal (Fin x)))) - x\<bar> \<le> 1 / 2"
proof -
  have "0 \<le> uint (p1_bitval cal)" by simp
  then have "0 \<le> real_of_int (uint (p1_bitval cal))" by (simp only: of_int_0_le_iff)
  with assms(5) have x0: "0 \<le> x" by linarith
  have "round_half_away 0 \<le> round_half_away x"
    using x0 by (intro round_half_away_mono) simp_all
  then have lo: "0 \<le> round_half_away x"
    using round_half_away_of_int [of 0] by simp
  have "round_half_away x \<le> round_half_away (real_of_int (uint (p2_bitval cal)))"
    using x0 assms(6) by (rule round_half_away_mono)
  then have "round_half_away x \<le> uint (p2_bitval cal)"
    by (simp only: round_half_away_of_int)
  moreover have "uint (p2_bitval cal) < 2 ^ 16"
    using uint_bounded [of "p2_bitval cal"] by simp
  ultimately have hi: "round_half_away x < 2 ^ 16" by linarith
  have "uint (word_of_int (round_half_away x) :: uint16_t) = round_half_away x"
    using lo hi by (simp add: uint_word_of_int take_bit_eq_mod)
  then show ?thesis
    using round_half_away_near [OF x0]
    by (simp only: round_trip_value [OF assms(1-4,7)])
qed

subsection \<open>The round trip with rounded arithmetic\<close>

lemma fl_exact [simp]: "fl (\<lambda>r. r) x = x"
  by (cases x) simp_all

lemma maps_fl_exact:
  "linear_mA_fl (\<lambda>r. r) cal bitval = linear_mA cal bitval"
  "bitval2mA_fl (\<lambda>r. r) cal bitval = bitval2mA cal bitval"
  "mA2bitval_fl (\<lambda>r. r) cal mA = mA2bitval cal mA"
  by (simp_all add: linear_mA_fl_def linear_mA_def bitval2mA_fl_def bitval2mA_def classify_def
      mA2bitval_fl_def mA2bitval_def)

lemma binary32_error_exact: "binary32_error (\<lambda>r. r)"
  by (simp add: binary32_error_def)

lemma rnd_abs:
  assumes "binary32_error rnd" "1 / 2 ^ 20 \<le> x" "x \<le> hi" "hi \<le> 2 ^ 20"
  shows "\<bar>rnd x - x\<bar> \<le> hi / 2 ^ 24"
proof -
  have "(0 :: real) < 1 / 2 ^ 20" by simp
  with assms(2) have pos: "0 < x" by linarith
  have "(1 :: real) / 2 ^ 126 \<le> 1 / 2 ^ 20"
    by (simp add: field_simps)
  with assms(2) pos have lo: "1 / 2 ^ 126 \<le> \<bar>x\<bar>" by linarith
  have "(2 :: real) ^ 20 \<le> 2 ^ 127" by simp
  with assms(3,4) pos have up: "\<bar>x\<bar> \<le> 2 ^ 127" by linarith
  have "\<bar>rnd x - x\<bar> \<le> \<bar>x\<bar> / 2 ^ 24"
    using assms(1) lo up unfolding binary32_error_def by blast
  also have "\<dots> \<le> hi / 2 ^ 24"
    using pos assms(3) by (simp add: divide_right_mono)
  finally show ?thesis .
qed

lemma prod_err:
  fixes a b A B :: real
  shows "\<bar>a * b - A * B\<bar> \<le> \<bar>a - A\<bar> * \<bar>b\<bar> + \<bar>A\<bar> * \<bar>b - B\<bar>"
proof -
  have "a * b - A * B = (a - A) * b + A * (b - B)" by (simp add: algebra_simps)
  then have "\<bar>a * b - A * B\<bar> \<le> \<bar>(a - A) * b\<bar> + \<bar>A * (b - B)\<bar>" by linarith
  then show ?thesis by (simp add: abs_mult)
qed

lemma prod_err_bound:
  fixes a b A B :: real
  assumes "\<bar>a - A\<bar> \<le> ea" "\<bar>b\<bar> \<le> bb" "\<bar>A\<bar> \<le> bA" "\<bar>b - B\<bar> \<le> eb"
  shows "\<bar>a * b - A * B\<bar> \<le> ea * bb + bA * eb"
proof -
  have "\<bar>a - A\<bar> * \<bar>b\<bar> \<le> ea * bb"
    using assms(1,2) by (intro mult_mono) (auto intro: order_trans [OF abs_ge_zero])
  moreover have "\<bar>A\<bar> * \<bar>b - B\<bar> \<le> bA * eb"
    using assms(3,4) by (intro mult_mono) (auto intro: order_trans [OF abs_ge_zero])
  ultimately show ?thesis using prod_err [of a b A B] by linarith
qed


lemma rnd_abs':
  assumes "binary32_error rnd" "1 / 1048576 \<le> x" "x \<le> hi" "hi \<le> 1048576"
  shows "\<bar>rnd x - x\<bar> \<le> hi / 16777216"
  using rnd_abs [of rnd x hi] assms by simp

lemma round_trip_error:
  fixes rnd :: "real \<Rightarrow> real" and n d b1 m1 m2 :: real
  assumes R: "binary32_error rnd"
    and n: "1 \<le> n" "n \<le> d" and d: "d \<le> 65535" and b: "0 \<le> b1" "n + b1 \<le> 65535"
    and m1: "3 \<le> m1" "m1 \<le> 5" and m2: "19 \<le> m2" "m2 \<le> 21"
  defines "m \<equiv> rnd (m2 - m1)"
  defines "mA \<equiv> rnd (m1 + rnd (rnd (rnd n / d) * m))"
  shows "\<bar>rnd (rnd (rnd (rnd (mA - m1) / m) * d) + b1) - (n + b1)\<bar> \<le> 1 / 16"
proof -
  define e :: real where "e = 1 / 16777216"
  define v where "v = n / d"
  define M where "M = m2 - m1"
  define t1 where "t1 = rnd n"
  define t2 where "t2 = rnd (t1 / d)"
  define t3 where "t3 = rnd (t2 * m)"
  define u1 where "u1 = rnd (mA - m1)"
  define u3 where "u3 = rnd (u1 / m)"
  define u4 where "u4 = rnd (u3 * d)"
  define u5 where "u5 = rnd (u4 + b1)"
  have d1: "1 \<le> d" using n by linarith
  have dinv: "1 / 65535 \<le> 1 / d" "1 / d \<le> 1"
    using d d1 by (simp_all add: field_simps)
  have v: "1 / 65535 \<le> v" "v \<le> 1"
  proof -
    have "1 / d \<le> n / d" using n(1) d1 by (simp add: divide_right_mono)
    with dinv(1) show "1 / 65535 \<le> v" unfolding v_def by linarith
    show "v \<le> 1" unfolding v_def using n(2) d1 by simp
  qed
  have vd: "v * d = n" unfolding v_def using d1 by simp
  have M: "14 \<le> M" "M \<le> 18" unfolding M_def using m1 m2 by linarith+
  \<comment> \<open>step 1\<close>
  have t1: "\<bar>t1 - n\<bar> \<le> n * e"
  proof -
    have "\<bar>rnd n - n\<bar> \<le> n / 16777216"
      using rnd_abs' [OF R, of n n] n d by linarith
    then show ?thesis unfolding t1_def e_def by simp
  qed
  \<comment> \<open>step 2\<close>
  have a2: "\<bar>t1 / d - v\<bar> \<le> e"
  proof -
    have "t1 / d - v = (t1 - n) / d" unfolding v_def by (simp add: diff_divide_distrib)
    then have "\<bar>t1 / d - v\<bar> = \<bar>t1 - n\<bar> / d" using d1 by (simp add: abs_divide)
    also have "\<dots> \<le> (n * e) / d" using t1 d1 by (simp add: divide_right_mono)
    also have "\<dots> = v * e" unfolding v_def by simp
    also have "\<dots> \<le> 1 * e" using v(2) unfolding e_def by (intro mult_right_mono) simp_all
    finally show ?thesis by simp
  qed
  have t2: "\<bar>t2 - v\<bar> \<le> 3 * e"
  proof -
    have "1 / 1048576 \<le> t1 / d" "t1 / d \<le> 2"
      using a2 v unfolding e_def by linarith+
    from rnd_abs' [OF R this(1) this(2)] have "\<bar>t2 - t1 / d\<bar> \<le> 2 * e"
      unfolding t2_def e_def by simp
    with a2 show ?thesis by linarith
  qed
  \<comment> \<open>step 3\<close>
  have m: "\<bar>m - M\<bar> \<le> 18 * e"
  proof -
    have "\<bar>rnd M - M\<bar> \<le> 18 / 16777216"
      using rnd_abs' [OF R, of M 18] M by linarith
    then show ?thesis unfolding m_def M_def e_def by simp
  qed
  have mr: "139 / 10 \<le> m" "m \<le> 181 / 10"
    using m M unfolding e_def by linarith+
  \<comment> \<open>step 4\<close>
  have a3: "\<bar>t2 * m - v * M\<bar> \<le> 73 * e"
  proof -
    have "\<bar>t2 * m - v * M\<bar> \<le> (3 * e) * (181 / 10) + 1 * (18 * e)"
      using t2 mr v m by (intro prod_err_bound) (simp_all add: abs_le_iff; linarith)+
    then show ?thesis unfolding e_def by simp
  qed
  have vM: "14 / 65535 \<le> v * M" "v * M \<le> 18"
  proof -
    have "(1 / 65535) * 14 \<le> v * M" using v(1) M(1) by (intro mult_mono) simp_all
    then show "14 / 65535 \<le> v * M" by simp
    have "v * M \<le> 1 * 18" using v M by (intro mult_mono) (simp_all; linarith)+
    then show "v * M \<le> 18" by simp
  qed
  have t3: "\<bar>t3 - v * M\<bar> \<le> 92 * e"
  proof -
    have "1 / 1048576 \<le> t2 * m" "t2 * m \<le> 19"
      using a3 vM unfolding e_def by linarith+
    from rnd_abs' [OF R this(1) this(2)] have "\<bar>t3 - t2 * m\<bar> \<le> 19 * e"
      unfolding t3_def e_def by simp
    with a3 show ?thesis by linarith
  qed
  \<comment> \<open>step 5\<close>
  have mA_eq: "mA = rnd (m1 + t3)"
    unfolding mA_def t3_def t2_def t1_def by simp
  have mA: "\<bar>mA - (m1 + v * M)\<bar> \<le> 116 * e"
  proof -
    have "1 / 1048576 \<le> m1 + t3" "m1 + t3 \<le> 24"
      using t3 vM m1 unfolding e_def by linarith+
    from rnd_abs' [OF R this(1) this(2)] have "\<bar>mA - (m1 + t3)\<bar> \<le> 24 * e"
      unfolding mA_eq e_def by simp
    with t3 show ?thesis by linarith
  qed
  \<comment> \<open>step 6\<close>
  have u1: "\<bar>u1 - v * M\<bar> \<le> 135 * e"
  proof -
    have "1 / 1048576 \<le> mA - m1" "mA - m1 \<le> 19"
      using mA vM unfolding e_def by linarith+
    from rnd_abs' [OF R this(1) this(2)] have "\<bar>u1 - (mA - m1)\<bar> \<le> 19 * e"
      unfolding u1_def e_def by simp
    with mA show ?thesis by linarith
  qed
  \<comment> \<open>step 7\<close>
  have a6: "\<bar>u1 / m - v\<bar> \<le> 12 * e"
  proof -
    have "\<bar>v * m - v * M\<bar> \<le> 0 * (181 / 10) + 1 * (18 * e)"
      using mr v m by (intro prod_err_bound) (simp_all add: abs_le_iff; linarith)+
    with u1 have num: "\<bar>u1 - v * m\<bar> \<le> 153 * e" by linarith
    have "u1 / m - v = (u1 - v * m) / m" using mr by (simp add: field_simps)
    then have "\<bar>u1 / m - v\<bar> = \<bar>u1 - v * m\<bar> / m" using mr by (simp add: abs_divide)
    also have "\<dots> \<le> (153 * e) / m" using num mr by (simp add: divide_right_mono)
    also have "\<dots> \<le> (153 * e) / (139 / 10)"
      using mr unfolding e_def by (intro divide_left_mono) simp_all
    also have "\<dots> \<le> 12 * e" unfolding e_def by simp
    finally show ?thesis .
  qed
  have u3: "\<bar>u3 - v\<bar> \<le> 14 * e"
  proof -
    have "1 / 1048576 \<le> u1 / m" "u1 / m \<le> 2"
      using a6 v unfolding e_def by linarith+
    from rnd_abs' [OF R this(1) this(2)] have "\<bar>u3 - u1 / m\<bar> \<le> 2 * e"
      unfolding u3_def e_def by simp
    with a6 show ?thesis by linarith
  qed
  \<comment> \<open>step 8\<close>
  have a7: "\<bar>u3 * d - n\<bar> \<le> 14 / 256"
  proof -
    have "u3 * d - n = (u3 - v) * d" using vd by (simp add: algebra_simps)
    then have "\<bar>u3 * d - n\<bar> = \<bar>u3 - v\<bar> * d" using d1 by (simp add: abs_mult)
    also have "\<dots> \<le> (14 * e) * 65535"
      using u3 d d1 unfolding e_def by (intro mult_mono) simp_all
    also have "\<dots> \<le> 14 / 256" unfolding e_def by simp
    finally show ?thesis .
  qed
  have u4: "\<bar>u4 - n\<bar> \<le> 15 / 256"
  proof -
    have "1 / 1048576 \<le> u3 * d" "u3 * d \<le> 65536"
      using a7 n d by linarith+
    from rnd_abs' [OF R this(1) this(2)] have "\<bar>u4 - u3 * d\<bar> \<le> 1 / 256"
      unfolding u4_def by simp
    with a7 show ?thesis by linarith
  qed
  \<comment> \<open>step 9\<close>
  have u5: "\<bar>u5 - (n + b1)\<bar> \<le> 16 / 256"
  proof -
    have "1 / 1048576 \<le> u4 + b1" "u4 + b1 \<le> 65536"
      using u4 n b by linarith+
    from rnd_abs' [OF R this(1) this(2)] have "\<bar>u5 - (u4 + b1)\<bar> \<le> 1 / 256"
      unfolding u5_def by simp
    with u4 show ?thesis by linarith
  qed
  then show ?thesis
    unfolding u5_def u4_def u3_def u1_def by simp
qed

lemma round_half_away_unique:
  assumes "\<bar>y - real_of_int k\<bar> < 1 / 2"
  shows "round_half_away y = k"
proof (cases "0 \<le> y")
  case True
  have "\<lfloor>y + 1 / 2\<rfloor> = k" using assms by linarith
  then show ?thesis using True by (simp add: round_half_away_def)
next
  case False
  have "\<lceil>y - 1 / 2\<rceil> = k" using assms by linarith
  then show ?thesis using False by (simp add: round_half_away_def)
qed

lemma rnd_m_range:
  assumes R: "binary32_error rnd" and "3 \<le> m1" "m1 \<le> 5" "19 \<le> m2" "m2 \<le> (21 :: real)"
  shows "139 / 10 \<le> rnd (m2 - m1)"
proof -
  have "\<bar>rnd (m2 - m1) - (m2 - m1)\<bar> \<le> 18 / 16777216"
    using rnd_abs' [OF R, of "m2 - m1" 18] assms by linarith
  then show ?thesis using assms by linarith
qed

lemma round_trip_error_0:
  fixes rnd :: "real \<Rightarrow> real" and d b1 m1 m2 :: real
  assumes R: "binary32_error rnd"
    and b: "b1 = 0 \<or> 1 \<le> b1" "b1 \<le> 65535" and m1: "rnd m1 = m1"
  shows "\<bar>rnd (rnd (rnd (rnd (rnd (m1 + rnd (rnd (rnd 0 / d) * m)) - m1) / m) * d) + b1) - (0 + b1)\<bar>
         \<le> 1 / 16"
proof -
  have z: "rnd 0 = 0" using R unfolding binary32_error_def by blast
  have "\<bar>rnd b1 - b1\<bar> \<le> 1 / 16"
  proof (cases "b1 = 0")
    case True
    then show ?thesis by (simp add: z)
  next
    case False
    with b have "1 \<le> b1" by simp
    then have "\<bar>rnd b1 - b1\<bar> \<le> 65535 / 16777216"
      using rnd_abs' [OF R, of b1 65535] b(2) by linarith
    then show ?thesis by linarith
  qed
  then show ?thesis by (simp add: z m1)
qed

lemma float_of_uint16_Fin: "float_of_uint16 w = Fin (real_of_int (uint w))"
  by (simp only: float_of_uint16_def float_of_int_def)

lemma round_trip_under_rounding:
  assumes R: "binary32_error rnd"
    and cal: "p1_mA cal = Fin m1" "p2_mA cal = Fin m2"
    and m1: "3 \<le> m1" "m1 \<le> 5" "rnd m1 = m1" and m2: "19 \<le> m2" "m2 \<le> 21"
    and b: "p1_bitval cal < p2_bitval cal" "p1_bitval cal \<le> x" "x \<le> p2_bitval cal"
    and ok: "bitval2mA_fl rnd cal (float_of_uint16 x) \<noteq> NaN"
  shows "mA2bitval_fl rnd cal (bitval2mA_fl rnd cal (float_of_uint16 x)) = x"
proof -
  define b1 where "b1 = real_of_int (uint (p1_bitval cal))"
  define d where "d = real_of_int (uint (p2_bitval cal) - uint (p1_bitval cal))"
  define n where "n = real_of_int (uint x) - b1"
  define m where "m = rnd (m2 - m1)"
  define mA where "mA = rnd (m1 + rnd (rnd (rnd n / d) * m))"
  define y where "y = rnd (rnd (rnd (rnd (mA - m1) / m) * d) + b1)"
  have ints: "uint (p1_bitval cal) < uint (p2_bitval cal)" "uint (p1_bitval cal) \<le> uint x"
    "uint x \<le> uint (p2_bitval cal)" "0 \<le> uint (p1_bitval cal)" "uint (p2_bitval cal) \<le> 65535"
    using b uint_bounded [of "p2_bitval cal"] by (simp_all add: word_less_def word_le_def)
  have dpos: "1 \<le> d" unfolding d_def using ints(1) by linarith
  have d: "d \<le> 65535" unfolding d_def using ints(1,4,5) by linarith
  have nd: "n \<le> d" unfolding n_def b1_def d_def using ints(3) by linarith
  have "uint (p1_bitval cal) = 0 \<or> 1 \<le> uint (p1_bitval cal)"
    using ints(4) by arith
  then have b1_int: "b1 = 0 \<or> 1 \<le> b1"
    unfolding b1_def by (simp only: of_int_eq_0_iff of_int_1_le_iff)
  have b1: "0 \<le> b1" "b1 \<le> 65535" "n + b1 \<le> 65535"
    unfolding b1_def n_def using ints by linarith+
  have "uint x - uint (p1_bitval cal) = 0 \<or> 1 \<le> uint x - uint (p1_bitval cal)"
    using ints(2) by arith
  then have "real_of_int (uint x - uint (p1_bitval cal)) = 0
      \<or> 1 \<le> real_of_int (uint x - uint (p1_bitval cal))"
    by (simp only: of_int_eq_0_iff of_int_1_le_iff)
  then have n: "n = 0 \<or> 1 \<le> n" unfolding n_def b1_def by (simp only: of_int_diff)
  have m: "139 / 10 \<le> m" unfolding m_def by (rule rnd_m_range [OF R m1(1,2) m2])
  have lin: "linear_mA_fl rnd cal (float_of_uint16 x) = Fin mA"
    using dpos
    by (simp add: linear_mA_fl_def cal float_of_uint16_Fin float_of_int_def minus_float_def
        mA_def m_def n_def b1_def d_def)
  with ok have conv: "bitval2mA_fl rnd cal (float_of_uint16 x) = Fin mA"
    by (simp add: bitval2mA_fl_def Let_def split: if_splits)
  have ret: "mA2bitval_fl rnd cal (Fin mA) = word_of_int (round_half_away y)"
    using m
    by (simp add: mA2bitval_fl_def cal float_of_uint16_Fin float_of_int_def minus_float_def
        y_def m_def b1_def d_def)
  have err: "\<bar>y - (n + b1)\<bar> \<le> 1 / 16"
  proof (cases "n = 0")
    case True
    show ?thesis
      unfolding y_def mA_def True
      by (rule round_trip_error_0 [OF R b1_int b1(2) m1(3)])
  next
    case False
    with n have "1 \<le> n" by simp
    then show ?thesis
      unfolding y_def mA_def m_def
      by (intro round_trip_error [OF R _ nd d b1(1,3) m1(1,2) m2])
  qed
  have "n + b1 = real_of_int (uint x)" unfolding n_def by simp
  with err have "\<bar>y - real_of_int (uint x)\<bar> < 1 / 2" by linarith
  then have "round_half_away y = uint x" by (rule round_half_away_unique)
  then show ?thesis
    unfolding conv ret by simp
qed

text \<open>
  C7. Take a calibration with finite currents \<open>m1 < m2\<close> and bit values ordered the same
  way. In exact arithmetic, for every raw value \<open>x\<close> of the calibrated span, fractional
  or not, whose current exceeds the fault threshold, \<^verbatim>\<open>mA2bitval(bitval2mA(x))\<close>
  is within one bit of \<open>x\<close>. With rounded arithmetic of single precision, point 1 a
  \<^verbatim>\<open>float\<close> within 1 mA of 4 mA (rounding leaves it as it is) and point 2
  within 1 mA of 20 mA, every integer raw value of the span whose current exceeds the
  threshold comes back unchanged.
\<close>

theorem round_trip_within_one_bit:
  assumes "p1_mA cal = Fin m1" "p2_mA cal = Fin m2" "m1 < m2" "p1_bitval cal < p2_bitval cal"
  shows "(\<forall>x. real_of_int (uint (p1_bitval cal)) \<le> x \<and> x \<le> real_of_int (uint (p2_bitval cal))
              \<and> R_CLICK_FAULT_mA < linear_mA cal (Fin x) \<longrightarrow>
            \<bar>real_of_int (uint (mA2bitval cal (bitval2mA cal (Fin x)))) - x\<bar> \<le> 1)
         \<and> (\<forall>rnd xw. binary32_error rnd \<and> 3 \<le> m1 \<and> m1 \<le> 5 \<and> rnd m1 = m1
              \<and> 19 \<le> m2 \<and> m2 \<le> 21
              \<and> p1_bitval cal \<le> xw \<and> xw \<le> p2_bitval cal
              \<and> bitval2mA_fl rnd cal (float_of_uint16 xw) \<noteq> NaN \<longrightarrow>
            mA2bitval_fl rnd cal (bitval2mA_fl rnd cal (float_of_uint16 xw)) = xw)"
proof (intro conjI allI impI)
  fix x
  assume "real_of_int (uint (p1_bitval cal)) \<le> x \<and> x \<le> real_of_int (uint (p2_bitval cal))
              \<and> R_CLICK_FAULT_mA < linear_mA cal (Fin x)"
  then have "\<bar>real_of_int (uint (mA2bitval cal (bitval2mA cal (Fin x)))) - x\<bar> \<le> 1 / 2"
    using round_trip_half_bit [OF assms] by blast
  then show "\<bar>real_of_int (uint (mA2bitval cal (bitval2mA cal (Fin x)))) - x\<bar> \<le> 1"
    by linarith
next
  fix rnd xw
  assume "binary32_error rnd \<and> 3 \<le> m1 \<and> m1 \<le> 5 \<and> rnd m1 = m1
              \<and> 19 \<le> m2 \<and> m2 \<le> 21
              \<and> p1_bitval cal \<le> xw \<and> xw \<le> p2_bitval cal
              \<and> bitval2mA_fl rnd cal (float_of_uint16 xw) \<noteq> NaN"
  then show "mA2bitval_fl rnd cal (bitval2mA_fl rnd cal (float_of_uint16 xw)) = xw"
    using round_trip_under_rounding [OF _ assms(1,2) _ _ _ _ _ assms(4)] by blast
qed

lemma example_linear_mA: "linear_mA example_calib (Fin x) = Fin (4 + (x - 800) / 3200 * 16)"
  by (simp add: linear_mA_def example_calib_def float_of_uint16_def float_of_int_def
      minus_float_def)

theorem round_trip_within_one_bit_witness:
  "p1_bitval example_calib < p2_bitval example_calib
   \<and> R_CLICK_FAULT_mA < linear_mA example_calib (Fin (4801 / 2))
   \<and> bitval2mA example_calib (Fin (4801 / 2)) = Fin (120025 / 10000)
   \<and> mA2bitval example_calib (bitval2mA example_calib (Fin (4801 / 2))) = 2401
   \<and> \<bar>real_of_int (uint (mA2bitval example_calib (bitval2mA example_calib (Fin (4801 / 2)))))
        - 4801 / 2\<bar> \<le> 1
   \<and> binary32_error (\<lambda>r. r)
   \<and> bitval2mA_fl (\<lambda>r. r) example_calib (float_of_uint16 2400) = Fin 12
   \<and> mA2bitval_fl (\<lambda>r. r) example_calib
         (bitval2mA_fl (\<lambda>r. r) example_calib (float_of_uint16 2400)) = 2400"
proof -
  have c: "p1_mA example_calib = Fin 4" "p2_mA example_calib = Fin 20" "(4 :: real) < 20"
    "p1_bitval example_calib < p2_bitval example_calib"
    by (simp_all add: example_calib_def)
  have span: "real_of_int (uint (p1_bitval example_calib)) \<le> 4801 / 2"
    "4801 / 2 \<le> real_of_int (uint (p2_bitval example_calib))"
    "p1_bitval example_calib \<le> 2400" "2400 \<le> p2_bitval example_calib"
    by (simp_all add: example_calib_def)
  have f: "R_CLICK_FAULT_mA < linear_mA example_calib (Fin (4801 / 2))"
    by (simp add: example_linear_mA R_CLICK_FAULT_mA_def)
  have v: "bitval2mA example_calib (Fin (4801 / 2)) = Fin (120025 / 10000)"
    by (simp add: bitval2mA_def example_linear_mA classify_Fin)
  have w: "mA2bitval example_calib (Fin (120025 / 10000)) = 2401"
    by (simp add: mA2bitval_def example_calib_def float_of_int_def float_of_uint16_def
      minus_float_def round_half_away_def)
  have g: "bitval2mA_fl (\<lambda>r. r) example_calib (float_of_uint16 2400) = Fin 12"
    by (simp add: maps_fl_exact bitval2mA_def example_linear_mA classify_Fin
        float_of_uint16_def float_of_int_def)
  note t = round_trip_within_one_bit [OF c]
  from t have "\<bar>real_of_int (uint (mA2bitval example_calib (bitval2mA example_calib (Fin (4801 / 2)))))
        - 4801 / 2\<bar> \<le> 1"
    using span(1,2) f by blast
  moreover have "mA2bitval_fl (\<lambda>r. r) example_calib
         (bitval2mA_fl (\<lambda>r. r) example_calib (float_of_uint16 2400)) = 2400"
    by (rule t [THEN conjunct2, THEN spec, THEN spec, THEN mp, of "\<lambda>r. r" 2400])
      (simp add: binary32_error_exact span(3,4) g)
  ultimately show ?thesis
    using c(4) f v w g binary32_error_exact by simp
qed

subsection \<open>The transmitter scenario\<close>

lemma example_mA2bitval: "mA2bitval example_calib (Fin 12) = 2400"
  by (simp add: mA2bitval_def example_calib_def float_of_int_def float_of_uint16_def
      minus_float_def round_half_away_def)

lemma example_mA2bitval_rounded:
  assumes R: "binary32_error rnd"
  shows "mA2bitval_fl rnd example_calib (Fin 12) = 2400"
proof -
  define a where "a = rnd (12 - 4)"
  define m where "m = rnd (20 - 4)"
  define q where "q = rnd (a / m)"
  define p where "p = rnd (q * 3200)"
  define y where "y = rnd (p + 800)"
  have a: "\<bar>a - 8\<bar> \<le> 8 / 16777216"
    unfolding a_def using rnd_abs' [OF R, of 8 8] by simp
  have m: "\<bar>m - 16\<bar> \<le> 16 / 16777216"
    unfolding m_def using rnd_abs' [OF R, of 16 16] by simp
  have mr: "159 / 10 \<le> m" "m \<le> 161 / 10" using m by linarith+
  have "a / m - 1 / 2 = (a - 8 + (16 - m) / 2) / m"
    using mr by (simp add: field_simps)
  then have "\<bar>a / m - 1 / 2\<bar> = \<bar>a - 8 + (16 - m) / 2\<bar> / m"
    using mr by (simp add: abs_divide)
  also have "\<dots> \<le> (16 / 16777216) / m"
  proof -
    have "\<bar>a - 8 + (16 - m) / 2\<bar> \<le> 16 / 16777216" using a m by argo
    moreover have "0 \<le> m" using mr by linarith
    ultimately show ?thesis by (rule divide_right_mono)
  qed
  also have "\<dots> \<le> (16 / 16777216) / (159 / 10)"
    using mr by (intro divide_left_mono) simp_all
  finally have am: "\<bar>a / m - 1 / 2\<bar> \<le> 2 / 16777216" by simp
  have q: "\<bar>q - 1 / 2\<bar> \<le> 3 / 16777216"
  proof -
    have "1 / 1048576 \<le> a / m" "a / m \<le> 1" using am by linarith+
    from rnd_abs' [OF R this(1) this(2)] have "\<bar>q - a / m\<bar> \<le> 1 / 16777216"
      unfolding q_def by simp
    with am show ?thesis by linarith
  qed
  have p: "\<bar>p - 1600\<bar> \<le> 1 / 256"
  proof -
    have "1 / 1048576 \<le> q * 3200" "q * 3200 \<le> 1601" using q by linarith+
    from rnd_abs' [OF R this(1) this(2)] have "\<bar>p - q * 3200\<bar> \<le> 1601 / 16777216"
      unfolding p_def by simp
    with q show ?thesis by linarith
  qed
  have y: "\<bar>y - 2400\<bar> \<le> 1 / 128"
  proof -
    have "1 / 1048576 \<le> p + 800" "p + 800 \<le> 2401" using p by linarith+
    from rnd_abs' [OF R this(1) this(2)] have "\<bar>y - (p + 800)\<bar> \<le> 2401 / 16777216"
      unfolding y_def by simp
    with p show ?thesis by linarith
  qed
  then have "\<bar>y - real_of_int 2400\<bar> < 1 / 2" by simp
  then have "round_half_away y = 2400" by (rule round_half_away_unique)
  moreover have "mA2bitval_fl rnd example_calib (Fin 12) = word_of_int (round_half_away y)"
    using mr
    by (simp add: mA2bitval_fl_def example_calib_def float_of_uint16_Fin float_of_int_def
        minus_float_def y_def p_def q_def a_def m_def)
  ultimately show ?thesis by simp
qed

text \<open>
  C6. With the calibration (4.0 mA, 800) and (20.0 mA, 4000), \<^verbatim>\<open>set_mA(12.0)\<close>
  computes the bit value 2400 and transfers the two bytes \<^verbatim>\<open>0x30 | (2400 >> 8)\<close>
  (\<^verbatim>\<open>0x39\<close>) and \<^verbatim>\<open>2400 & 0xFF\<close> (\<^verbatim>\<open>0x60\<close>),
  in this order, inside one transaction; 2400 is stored in the object, from where
  \<^verbatim>\<open>get_last_set_bitval\<close> returns it without touching the bus. The bit value
  is 2400 with rounded arithmetic of single precision too.
\<close>

theorem set_mA_12_scenario:
  "mA2bitval example_calib (Fin 12) = 2400
   \<and> (binary32_error rnd \<longrightarrow> mA2bitval_fl rnd example_calib (Fin 12) = 2400)
   \<and> set_mA (Fin 12) (t\<lparr>T_calib := example_calib\<rparr>) w =
       (t\<lparr>T_calib := example_calib, T_bitval := 2400\<rparr>,
        w\<lparr>trace := trace w @ [BeginTransaction (T_SPI_clock t), DigitalWrite (T_CS_pin t) LOW,
            Transfer (0x30 OR ucast (drop_bit 8 (2400 :: uint16_t))),
            Transfer (ucast ((2400 :: uint16_t) AND 0xFF)),
            DigitalWrite (T_CS_pin t) HIGH, EndTransaction],
          transfers := transfers w + 2\<rparr>)
   \<and> (0x30 OR ucast (drop_bit 8 (2400 :: uint16_t)) :: byte) = 0x39
   \<and> (ucast ((2400 :: uint16_t) AND 0xFF) :: byte) = 0x60
   \<and> get_last_set_bitval (fst (set_mA (Fin 12) (t\<lparr>T_calib := example_calib\<rparr>) w)) = 2400"
  by (simp add: set_mA_eq example_mA2bitval example_mA2bitval_rounded get_last_set_bitval_def
      bitval_HI_def bitval_LO_def)

theorem set_mA_12_scenario_witness:
  "binary32_error (\<lambda>r. r) \<and> mA2bitval_fl (\<lambda>r. r) example_calib (Fin 12) = 2400"
  using set_mA_12_scenario [of "\<lambda>r. r"] binary32_error_exact by blast

end
